theory Spec2Isabelle
  imports Complex_Main
begin

section \<open>Numbers and strings of the source language\<close>

text \<open>
  The layout record is JSON: coordinates and page sizes are numbers. Coordinates are
  modelled as rationals (\<^typ>\<open>rat\<close>), page sizes as integers. Python computes \<open>/\<close>,
  \<open>* 0.75\<close> and \<open>* 0.6\<close> in binary floating point; the model computes them exactly.
\<close>

datatype py_error = AssertionError | ZeroDivisionError | ValueError

text \<open>Python's \<open>int(x)\<close> on a float: truncation toward zero.\<close>

definition py_int :: "rat \<Rightarrow> int" where
  "py_int x = (if 0 \<le> x then \<lfloor>x\<rfloor> else \<lceil>x\<rceil>)"

text \<open>\<open>np.ceil\<close> followed by \<open>int\<close>.\<close>

definition np_ceil :: "rat \<Rightarrow> int" where
  "np_ceil x = \<lceil>x\<rceil>"

text \<open>Python 3's \<open>round(x)\<close>: to the nearest integer, a tie to the even one.\<close>

definition py_round :: "rat \<Rightarrow> int" where
  "py_round x =
     (let f = \<lfloor>x\<rfloor>; d = x - of_int f
      in if d < 1 / 2 then f
         else if 1 / 2 < d then f + 1
         else if even f then f else f + 1)"

text \<open>
  Strings are lists of 8-bit characters, read as the code points below 256. On these,
  \<open>str.lower\<close> moves \<open>A..Z\<close> and the upper-case letters of Latin-1 (\<open>0xC0..0xDE\<close>
  without \<open>0xD7\<close>) up by 32, and \<open>str.strip\<close> removes the characters for which
  \<open>str.isspace\<close> holds.
\<close>

definition lower_char :: "char \<Rightarrow> char" where
  "lower_char c =
     (let n = of_char c :: nat
      in if (65 \<le> n \<and> n \<le> 90) \<or> (192 \<le> n \<and> n \<le> 222 \<and> n \<noteq> 215)
         then char_of (n + 32) else c)"

definition lower :: "string \<Rightarrow> string" where
  "lower s = map lower_char s"

definition isspace :: "char \<Rightarrow> bool" where
  "isspace c =
     (let n = of_char c :: nat
      in (9 \<le> n \<and> n \<le> 13) \<or> (28 \<le> n \<and> n \<le> 32) \<or> n = 133 \<or> n = 160)"

definition strip :: "string \<Rightarrow> string" where
  "strip s = rev (dropWhile isspace (rev (dropWhile isspace s)))"

text \<open>The \<open>in\<close> operator on strings: \<open>py_in needle hay\<close> is \<open>needle in hay\<close>.\<close>

fun starts_with :: "string \<Rightarrow> string \<Rightarrow> bool" where
  "starts_with [] hay = True"
| "starts_with (n # ns) [] = False"
| "starts_with (n # ns) (h # hs) = (n = h \<and> starts_with ns hs)"

fun py_in :: "string \<Rightarrow> string \<Rightarrow> bool" where
  "py_in needle [] = (needle = [])"
| "py_in needle (h # hs) = (starts_with needle (h # hs) \<or> py_in needle hs)"

section \<open>Text analysis\<close>

text \<open>\<open>calculate_font_size(height, min_font_size=8, is_multiline=False, line_count=1)\<close>\<close>

definition calculate_font_size :: "rat \<Rightarrow> int \<Rightarrow> bool \<Rightarrow> int \<Rightarrow> int" where
  "calculate_font_size height min_font_size is_multiline line_count =
     (let font_size =
        (if is_multiline \<and> line_count > 1
         then (let line_height = height / of_int line_count in line_height * 0.75)
         else height * 0.75)
      in max min_font_size (py_int font_size))"

text \<open>
  A block's bounding box is \<open>[x1, y1, x2, y2]\<close>. An OCR line box (an entry of
  \<open>rec_boxes\<close>) stays a list of numbers: the source unpacks it into four names in some
  places (a \<open>ValueError\<close> when it does not have exactly four entries) and guards it with
  \<open>len(bbox) >= 4\<close> in others.
\<close>

type_synonym bbox = "rat \<times> rat \<times> rat \<times> rat"

fun unpack4 :: "rat list \<Rightarrow> py_error + bbox" where
  "unpack4 [a, b, c, d] = Inr (a, b, c, d)"
| "unpack4 _ = Inl ValueError"

text \<open>The first loop of \<open>get_line_count\<close>: the OCR boxes whose centre lies in the block.\<close>

fun contained_boxes :: "bbox \<Rightarrow> rat list list \<Rightarrow> py_error + rat list list" where
  "contained_boxes block_bbox [] = Inr []"
| "contained_boxes block_bbox (obox # ocr_boxes) =
     (case unpack4 obox of
        Inl e \<Rightarrow> Inl e
      | Inr (ox1, oy1, ox2, oy2) \<Rightarrow>
          (case block_bbox of (bx1, by1, bx2, by2) \<Rightarrow>
             (let cx = (ox1 + ox2) / 2; cy = (oy1 + oy2) / 2
              in case contained_boxes block_bbox ocr_boxes of
                   Inl e \<Rightarrow> Inl e
                 | Inr rest \<Rightarrow>
                     Inr (if bx1 \<le> cx \<and> cx \<le> bx2 \<and> by1 \<le> cy \<and> cy \<le> by2
                          then obox # rest else rest))))"

text \<open>The sort key \<open>lambda b: (b[1] + b[3]) / 2\<close> and the height \<open>b[3] - b[1]\<close>.\<close>

definition y_center :: "rat list \<Rightarrow> rat" where
  "y_center b = (b ! 1 + b ! 3) / 2"

definition box_h :: "rat list \<Rightarrow> rat" where
  "box_h b = b ! 3 - b ! 1"

text \<open>
  The body of \<open>for j in range(1, len(contained_boxes))\<close>; the loop state is
  \<open>(line_count, last_y_center, last_h)\<close>.
\<close>

definition line_step :: "rat list list \<Rightarrow> nat \<times> rat \<times> rat \<Rightarrow> nat \<Rightarrow> nat \<times> rat \<times> rat" where
  "line_step boxes st j =
     (case st of (line_count, last_y_center, last_h) \<Rightarrow>
        (let curr_y_center = y_center (boxes ! j); curr_h = box_h (boxes ! j)
         in if \<bar>curr_y_center - last_y_center\<bar> > max last_h curr_h * 0.6
            then (line_count + 1, curr_y_center, curr_h)
            else (line_count, last_y_center, last_h)))"

definition get_line_count :: "bbox \<Rightarrow> rat list list \<Rightarrow> py_error + nat" where
  "get_line_count block_bbox ocr_boxes =
     (case contained_boxes block_bbox ocr_boxes of
        Inl e \<Rightarrow> Inl e
      | Inr inside \<Rightarrow>
          if inside = [] then Inr 0
          else (let sorted_boxes = sort_key y_center inside;
                    st0 = (1, y_center (sorted_boxes ! 0), box_h (sorted_boxes ! 0))
                in Inr (fst (foldl (line_step sorted_boxes) st0 [1..<length sorted_boxes]))))"

section \<open>Text blocks\<close>

record block =
  block_label :: string
  block_content :: string
  block_bbox :: "bbox option"

text \<open>
  A block is a JSON object. A missing \<open>block_label\<close> reads as \<open>'unknown'\<close> in
  \<open>process_text_blocks\<close> and as \<open>None\<close> elsewhere, and neither is in any label list, so the
  model writes it \<open>''unknown''\<close>; a missing \<open>block_content\<close> reads as the empty string; a
  missing or empty \<open>block_bbox\<close> is \<open>None\<close>.
\<close>

definition valid_labels :: "string list" where
  "valid_labels =
     [''text'', ''title'', ''header'', ''footer'', ''reference'', ''paragraph_title'',
      ''algorithm'']"

definition should_skip_text_block :: "string \<Rightarrow> string \<Rightarrow> bool" where
  "should_skip_text_block label content =
     (if label \<notin> set valid_labels then True
      else if label = ''footer'' \<and> py_in ''notebooklm'' (lower content) then True
      else if strip content = [] then True
      else False)"

datatype alignment = Left | Center

record text_shape =
  ts_name :: string
  ts_text :: string
  ts_rect :: bbox
  ts_alignment :: alignment
  ts_font_name :: string
  ts_font_height :: int

text \<open>
  A slide is the list of its shapes, the lowest first. An image shape refers to the crop
  file it embeds; a file name \<open>page_{page_idx+1}_{label}_{index}.png\<close> is kept as the
  three values it is formatted from.
\<close>

datatype asset = Crop nat string nat | Processed nat

datatype shape = TextShape text_shape | ImageShape asset bbox

definition create_text_shape ::
  "shape list \<Rightarrow> string \<Rightarrow> string \<Rightarrow> bbox \<Rightarrow> rat \<Rightarrow> rat \<Rightarrow> rat \<Rightarrow> int \<Rightarrow> string \<Rightarrow> rat
     \<Rightarrow> shape list" where
  "create_text_shape slide content label bbox scale ppt_width ppt_height font_size font_name
     delta_y =
     (case bbox of (bx1, by1, bx2, by2) \<Rightarrow>
        (let left = bx1 * scale;
             top = by1 * scale + delta_y;
             right = bx2 * scale;
             bottom = by2 * scale + delta_y;
             (alignment, h_padding, v_padding) =
               (if label = ''paragraph_title'' then (Left, 5, 5) else (Center, 15, 5));
             rect = (max 0 left, max 0 (top - v_padding),
                     min ppt_width (right + h_padding + h_padding),
                     min ppt_height (bottom + v_padding))
         in slide @ [TextShape \<lparr>ts_name = ''Block_'' @ label, ts_text = content,
                       ts_rect = rect, ts_alignment = alignment, ts_font_name = font_name,
                       ts_font_height = font_size\<rparr>]))"

fun process_text_blocks ::
  "shape list \<Rightarrow> block list \<Rightarrow> rat list list \<Rightarrow> rat \<Rightarrow> rat \<Rightarrow> rat \<Rightarrow> string
     \<Rightarrow> py_error + shape list" where
  "process_text_blocks slide [] ocr_boxes scale ppt_width ppt_height font_name = Inr slide"
| "process_text_blocks slide (item # parsing_res_list) ocr_boxes scale ppt_width ppt_height
     font_name =
     (case block_bbox item of
        None \<Rightarrow>
          process_text_blocks slide parsing_res_list ocr_boxes scale ppt_width ppt_height
            font_name
      | Some bbox \<Rightarrow>
          if should_skip_text_block (block_label item) (block_content item)
          then process_text_blocks slide parsing_res_list ocr_boxes scale ppt_width
                 ppt_height font_name
          else (case get_line_count bbox ocr_boxes of
                  Inl e \<Rightarrow> Inl e
                | Inr line_count \<Rightarrow>
                    (let is_multiline = line_count > 1;
                         (bx1, by1, bx2, by2) = bbox;
                         height = (by2 - by1) * scale;
                         font_size = calculate_font_size height 8 is_multiline
                                       (int line_count);
                         slide' = create_text_shape slide (block_content item)
                                    (block_label item) bbox scale ppt_width ppt_height
                                    font_size font_name 2
                     in process_text_blocks slide' parsing_res_list ocr_boxes scale
                          ppt_width ppt_height font_name)))"

section \<open>Bounding boxes\<close>

text \<open>\<open>expand_bbox(bbox, expand_px, size)\<close>; \<open>size\<close> is the page size \<open>(width, height)\<close>.\<close>

definition expand_bbox :: "bbox \<Rightarrow> rat \<Rightarrow> int \<times> int \<Rightarrow> bbox" where
  "expand_bbox bbox expand_px page_size =
     (case page_size of (width, height) \<Rightarrow>
        (case bbox of (x1, y1, x2, y2) \<Rightarrow>
           (max 0 (x1 - expand_px), max 0 (y1 - expand_px),
            min (of_int width) (x2 + expand_px), min (of_int height) (y2 + expand_px))))"

text \<open>
  \<open>scale_bbox(bbox, s, make_int=True)\<close> returns
  \<open>[int(l * s), int(t * s), int(np.ceil(r * s)), int(np.ceil(b * s))]\<close>; the source comments it
  "top-left rounded down, bottom-right rounded up". \<open>scale_bbox_int\<close> is that branch with
  its integers kept as integers (they index the raster).
\<close>

definition scale_bbox_int :: "bbox \<Rightarrow> rat \<Rightarrow> int \<times> int \<times> int \<times> int" where
  "scale_bbox_int bbox s =
     (case bbox of (l, t, r, b) \<Rightarrow>
        (py_int (l * s), py_int (t * s), np_ceil (r * s), np_ceil (b * s)))"

definition scale_bbox :: "bbox \<Rightarrow> rat \<Rightarrow> bool \<Rightarrow> bbox" where
  "scale_bbox bbox s make_int =
     (if make_int
      then (case scale_bbox_int bbox s of (l, t, r, b) \<Rightarrow>
              (of_int l, of_int t, of_int r, of_int b))
      else (case bbox of (l, t, r, b) \<Rightarrow> (l * s, t * s, r * s, b * s)))"

section \<open>The raster\<close>

text \<open>
  The page image is a numpy array indexed \<open>[row, column]\<close>: a list of rows of pixels.
  A slice \<open>start:stop\<close> of a sequence of length \<open>n\<close> counts a negative bound from the end and
  clips both bounds to \<open>0..n\<close>.
\<close>

type_synonym 'px raster = "'px list list"

definition slice_bounds :: "nat \<Rightarrow> int \<Rightarrow> int \<Rightarrow> nat \<times> nat" where
  "slice_bounds n start stop =
     (let norm = (\<lambda>k. if k < 0 then max 0 (k + int n) else min k (int n))
      in (nat (norm start), nat (norm stop)))"

definition py_slice :: "'a list \<Rightarrow> int \<Rightarrow> int \<Rightarrow> 'a list" where
  "py_slice xs start stop =
     (case slice_bounds (length xs) start stop of (lo, hi) \<Rightarrow> take (hi - lo) (drop lo xs))"

definition assign_slice :: "'a list \<Rightarrow> int \<Rightarrow> int \<Rightarrow> ('a \<Rightarrow> 'a) \<Rightarrow> 'a list" where
  "assign_slice xs start stop f =
     (case slice_bounds (length xs) start stop of (lo, hi) \<Rightarrow>
        map (\<lambda>(i, x). if lo \<le> i \<and> i < hi then f x else x) (enumerate 0 xs))"

text \<open>\<open>image_cv[t:b, l:r]\<close> read, and \<open>image_cv[t:b, l:r] = fill_color\<close>.\<close>

definition crop_raster :: "'px raster \<Rightarrow> int \<Rightarrow> int \<Rightarrow> int \<Rightarrow> int \<Rightarrow> 'px raster" where
  "crop_raster image_cv t b l r = map (\<lambda>row. py_slice row l r) (py_slice image_cv t b)"

definition fill_raster :: "'px raster \<Rightarrow> int \<Rightarrow> int \<Rightarrow> int \<Rightarrow> int \<Rightarrow> 'px \<Rightarrow> 'px raster" where
  "fill_raster image_cv t b l r fill_color =
     assign_slice image_cv t b (\<lambda>row. assign_slice row l r (\<lambda>_. fill_color))"

text \<open>\<open>image_cv.shape[1]\<close>, the width of the array.\<close>

definition image_width :: "'px raster \<Rightarrow> nat" where
  "image_width image_cv = (case image_cv of [] \<Rightarrow> 0 | row # _ \<Rightarrow> length row)"

section \<open>Foreground extraction and background erasure\<close>

text \<open>
  What a page's pass changes: the slide, the image files written (in the order they are
  written) and the slide's background picture.
\<close>

record 'px page_state =
  ps_slide :: "shape list"
  ps_files :: "(asset \<times> 'px raster) list"
  ps_background :: "asset option"

text \<open>
  \<open>compute_edge_diversity_numpy(image, l, t, r, b, tolerance)\<close> is imported from a module
  that is not part of the sources; it returns a diversity score and a fill colour. It is a
  parameter of the functions that call it.
\<close>

type_synonym 'px sampler = "'px raster \<Rightarrow> int \<Rightarrow> int \<Rightarrow> int \<Rightarrow> int \<Rightarrow> nat \<Rightarrow> rat \<times> 'px"

definition extract_foreground_element ::
  "'px page_state \<Rightarrow> block \<Rightarrow> nat \<Rightarrow> 'px raster \<Rightarrow> rat \<Rightarrow> rat \<Rightarrow> int \<times> int \<Rightarrow> nat
     \<Rightarrow> bool \<times> 'px page_state" where
  "extract_foreground_element st item index image_cv img_scale scale pdf_size page_idx =
     (case block_bbox item of
        None \<Rightarrow> (False, st)
      | Some bbox \<Rightarrow>
          (let expanded_bbox = expand_bbox bbox 2 pdf_size
           in case scale_bbox_int expanded_bbox img_scale of (l_img, t_img, r_img, b_img) \<Rightarrow>
                if r_img \<le> l_img \<or> b_img \<le> t_img then (False, st)
                else (let crop = crop_raster image_cv t_img b_img l_img r_img;
                          crop_path = Crop (page_idx + 1) (block_label item) index;
                          rect_item = scale_bbox expanded_bbox scale False
                      in (True, st\<lparr>ps_slide := ImageShape crop_path rect_item # ps_slide st,
                                   ps_files := ps_files st @ [(crop_path, crop)]\<rparr>))))"

definition erase_region ::
  "'px sampler \<Rightarrow> 'px raster \<Rightarrow> bbox \<Rightarrow> rat \<Rightarrow> int \<times> int \<Rightarrow> bool \<times> 'px raster" where
  "erase_region sampler image_cv bbox img_scale pdf_size =
     (let expanded_bbox = expand_bbox bbox 2 pdf_size
      in case scale_bbox_int expanded_bbox img_scale of (l, t, r, b) \<Rightarrow>
           if r \<le> l \<or> b \<le> t then (False, image_cv)
           else (let fill_color = snd (sampler image_cv l t r b 20)
                 in (True, fill_raster image_cv t b l r fill_color)))"

definition foreground_labels :: "string list" where
  "foreground_labels = [''image'', ''table'', ''chart'']"

definition erasable_labels :: "string list" where
  "erasable_labels =
     [''text'', ''title'', ''header'', ''footer'', ''reference'', ''paragraph_title'',
      ''image'', ''table'', ''algorithm'', ''chart'']"

text \<open>The two loops of \<open>process_slide_background\<close>.\<close>

fun extract_loop ::
  "'px page_state \<Rightarrow> (nat \<times> block) list \<Rightarrow> 'px raster \<Rightarrow> rat \<Rightarrow> rat \<Rightarrow> int \<times> int \<Rightarrow> nat
     \<Rightarrow> 'px page_state" where
  "extract_loop st [] image_cv img_scale scale pdf_size page_idx = st"
| "extract_loop st ((i, item) # rest) image_cv img_scale scale pdf_size page_idx =
     (if block_label item \<in> set foreground_labels
      then extract_loop
             (snd (extract_foreground_element st item i image_cv img_scale scale pdf_size
                     page_idx))
             rest image_cv img_scale scale pdf_size page_idx
      else extract_loop st rest image_cv img_scale scale pdf_size page_idx)"

fun erase_loop ::
  "'px sampler \<Rightarrow> 'px raster \<Rightarrow> block list \<Rightarrow> rat \<Rightarrow> int \<times> int \<Rightarrow> 'px raster" where
  "erase_loop sampler image_cv [] img_scale pdf_size = image_cv"
| "erase_loop sampler image_cv (item # rest) img_scale pdf_size =
     (if block_label item \<in> set erasable_labels
      then (case block_bbox item of
              None \<Rightarrow> erase_loop sampler image_cv rest img_scale pdf_size
            | Some bbox \<Rightarrow>
                erase_loop sampler (snd (erase_region sampler image_cv bbox img_scale pdf_size))
                  rest img_scale pdf_size)
      else erase_loop sampler image_cv rest img_scale pdf_size)"

text \<open>
  \<open>process_slide_background\<close>. \<open>png_file\<close> is \<open>None\<close> when the page's image file does not
  exist, and otherwise the array of the image after \<open>img.resize(pdf_size)\<close>.
\<close>

definition process_slide_background ::
  "'px sampler \<Rightarrow> 'px page_state \<Rightarrow> block list \<Rightarrow> 'px raster option \<Rightarrow> int \<times> int \<Rightarrow> rat
     \<Rightarrow> nat \<Rightarrow> py_error + 'px page_state" where
  "process_slide_background sampler st parsing_res_list png_file pdf_size scale page_idx =
     (case png_file of
        None \<Rightarrow> Inr st
      | Some image_cv \<Rightarrow>
          (case pdf_size of (pdf_w, pdf_h) \<Rightarrow>
             if pdf_w = 0 then Inl ZeroDivisionError
             else (let img_scale = of_nat (image_width image_cv) / of_int pdf_w
                   in if img_scale = 0 then Inl ZeroDivisionError
                      else (let st1 = extract_loop st (enumerate 0 parsing_res_list) image_cv
                                        img_scale scale pdf_size page_idx;
                                erased = erase_loop sampler image_cv parsing_res_list
                                           img_scale pdf_size;
                                processed_png = Processed (page_idx + 1)
                            in Inr (st1\<lparr>ps_files := ps_files st1 @ [(processed_png, erased)],
                                        ps_background := Some processed_png\<rparr>)))))"

text \<open>
  The body of the page loop of \<open>create_ppt_from_paddle_json\<close>: a new slide, the text
  blocks, then the background. The loop runs after \<open>resize_data\<close>, with \<open>scale = 1.0\<close> and
  the font \<open>Calibri\<close>; \<open>png_file\<close> is also \<open>None\<close> when the page has no entry in
  \<open>png_files\<close>.
\<close>

definition process_page ::
  "'px sampler \<Rightarrow> block list \<Rightarrow> rat list list \<Rightarrow> 'px raster option \<Rightarrow> int \<times> int \<Rightarrow> rat
     \<Rightarrow> rat \<Rightarrow> nat \<Rightarrow> py_error + 'px page_state" where
  "process_page sampler parsing_res_list ocr_boxes png_file pdf_size ppt_width ppt_height
     page_idx =
     (case process_text_blocks [] parsing_res_list ocr_boxes 1 ppt_width ppt_height
             ''Calibri'' of
        Inl e \<Rightarrow> Inl e
      | Inr slide \<Rightarrow>
          process_slide_background sampler
            \<lparr>ps_slide = slide, ps_files = [], ps_background = None\<rparr>
            parsing_res_list png_file pdf_size 1 page_idx)"

section \<open>The layout record and its coordinate spaces\<close>

text \<open>
  The JSON document: \<open>layoutParsingResults\<close> is a list of pages whose \<open>prunedResult\<close> has
  \<open>width\<close>, \<open>height\<close> and \<open>parsing_res_list\<close>; \<open>ocrResults\<close> is a list of pages whose
  \<open>prunedResult\<close> has \<open>rec_boxes\<close>; \<open>dataInfo\<close>, when present and not empty, repeats the
  size for the document and for each of its \<open>pages\<close>.
\<close>

record page_layout =
  width :: int
  height :: int
  parsing_res_list :: "block list"

record page_ocr =
  rec_boxes :: "rat list list"

record page_info =
  pg_width :: int
  pg_height :: int

record data_info =
  di_width :: int
  di_height :: int
  pages :: "page_info list"

record data =
  layoutParsingResults :: "page_layout list"
  ocrResults :: "page_ocr list"
  dataInfo :: "data_info option"

text \<open>\<open>update_data_size(data, width, height=None)\<close>\<close>

definition update_data_size :: "data \<Rightarrow> rat \<Rightarrow> rat option \<Rightarrow> data" where
  "update_data_size d new_width new_height =
     (let w = py_int new_width;
          h = map_option py_int new_height
      in d\<lparr>layoutParsingResults :=
             map (\<lambda>page. page\<lparr>width := w,
                                height := (case h of None \<Rightarrow> height page | Some v \<Rightarrow> v)\<rparr>)
               (layoutParsingResults d),
           dataInfo :=
             map_option
               (\<lambda>info. info\<lparr>di_width := w,
                              di_height := (case h of None \<Rightarrow> di_height info | Some v \<Rightarrow> v),
                              pages :=
                                map (\<lambda>pg. pg\<lparr>pg_width := w,
                                                pg_height :=
                                                  (case h of None \<Rightarrow> pg_height pg
                                                   | Some v \<Rightarrow> v)\<rparr>)
                                  (pages info)\<rparr>)
               (dataInfo d)\<rparr>)"

text \<open>The padding branch of \<open>make_data_wide_screen\<close>, for one block and one OCR box.\<close>

definition shift_block :: "int \<Rightarrow> block \<Rightarrow> block" where
  "shift_block offset_x item =
     (case block_bbox item of
        None \<Rightarrow> item
      | Some (x1, y1, x2, y2) \<Rightarrow>
          item\<lparr>block_bbox := Some (x1 + of_int offset_x, y1, x2 + of_int offset_x, y2)\<rparr>)"

definition shift_box :: "int \<Rightarrow> rat list \<Rightarrow> rat list" where
  "shift_box offset_x bbox =
     (if bbox \<noteq> [] \<and> length bbox \<ge> 4
      then bbox[0 := bbox ! 0 + of_int offset_x, 2 := bbox ! 2 + of_int offset_x]
      else bbox)"

text \<open>The cropping branch: the loops that build \<open>filtered_list\<close> and \<open>filtered_boxes\<close>.\<close>

fun crop_blocks :: "int \<Rightarrow> int \<Rightarrow> int \<Rightarrow> block list \<Rightarrow> block list" where
  "crop_blocks left right target_width [] = []"
| "crop_blocks left right target_width (item # rest) =
     (case block_bbox item of
        None \<Rightarrow> crop_blocks left right target_width rest
      | Some (x1, y1, x2, y2) \<Rightarrow>
          if x2 > of_int left \<and> x1 < of_int right
          then (let new_x1 = max 0 (x1 - of_int left);
                    new_x2 = min (of_int target_width) (x2 - of_int left)
                in item\<lparr>block_bbox := Some (new_x1, y1, new_x2, y2)\<rparr>
                   # crop_blocks left right target_width rest)
          else crop_blocks left right target_width rest)"

fun crop_boxes :: "int \<Rightarrow> int \<Rightarrow> int \<Rightarrow> rat list list \<Rightarrow> rat list list" where
  "crop_boxes left right target_width [] = []"
| "crop_boxes left right target_width (bbox # rest) =
     (if bbox \<noteq> [] \<and> length bbox \<ge> 4
      then (let x1 = bbox ! 0; x2 = bbox ! 2
            in if x2 > of_int left \<and> x1 < of_int right
               then bbox[0 := max 0 (x1 - of_int left),
                         2 := min (of_int target_width) (x2 - of_int left)]
                    # crop_boxes left right target_width rest
               else crop_boxes left right target_width rest)
      else crop_boxes left right target_width rest)"

text \<open>
  \<open>make_data_wide_screen\<close>. The source works on a deep copy of its argument; the model's
  values are immutable.
\<close>

definition make_data_wide_screen :: "data \<Rightarrow> data" where
  "make_data_wide_screen d =
     (case layoutParsingResults d of
        [] \<Rightarrow> d
      | first_page_layout # _ \<Rightarrow>
          (let pdf_w = width first_page_layout;
               pdf_h = height first_page_layout;
               target_width = py_round (of_int pdf_h * 16 / 9)
           in if target_width = pdf_w then d
              else if target_width > pdf_w
              then (let offset_x = (target_width - pdf_w) div 2;
                        d1 = update_data_size d (of_int target_width) None
                    in d1\<lparr>layoutParsingResults :=
                            map (\<lambda>page. page\<lparr>parsing_res_list :=
                                                 map (shift_block offset_x)
                                                   (parsing_res_list page)\<rparr>)
                              (layoutParsingResults d1),
                          ocrResults :=
                            map (\<lambda>page. page\<lparr>rec_boxes :=
                                                 map (shift_box offset_x) (rec_boxes page)\<rparr>)
                              (ocrResults d1)\<rparr>)
              else (let left = (pdf_w - target_width) div 2;
                        right = left + target_width;
                        d1 = update_data_size d (of_int target_width) None
                    in d1\<lparr>layoutParsingResults :=
                            map (\<lambda>page. page\<lparr>width := target_width,
                                               parsing_res_list :=
                                                 crop_blocks left right target_width
                                                   (parsing_res_list page)\<rparr>)
                              (layoutParsingResults d1),
                          ocrResults :=
                            map (\<lambda>page. page\<lparr>rec_boxes :=
                                                 crop_boxes left right target_width
                                                   (rec_boxes page)\<rparr>)
                              (ocrResults d1)\<rparr>)))"

text \<open>
  \<open>resize_data(data, pdf_size, ppt_size)\<close>. Its failures are the division by a zero page
  size, the \<open>assert\<close> on the two scales, and \<open>scale_bbox\<close> unpacking an OCR box of more than
  four entries.
\<close>

definition resize_block :: "rat \<Rightarrow> block \<Rightarrow> block" where
  "resize_block scale item =
     (case block_bbox item of
        None \<Rightarrow> item
      | Some bbox \<Rightarrow> item\<lparr>block_bbox := Some (scale_bbox bbox scale True)\<rparr>)"

definition resize_box :: "rat \<Rightarrow> rat list \<Rightarrow> py_error + rat list" where
  "resize_box scale bbox =
     (if bbox \<noteq> [] \<and> length bbox \<ge> 4
      then (case unpack4 bbox of
              Inl e \<Rightarrow> Inl e
            | Inr b4 \<Rightarrow>
                (case scale_bbox b4 scale True of (l, t, r, b) \<Rightarrow>
                   Inr (bbox[0 := l, 1 := t, 2 := r, 3 := b])))
      else Inr bbox)"

fun resize_boxes :: "rat \<Rightarrow> rat list list \<Rightarrow> py_error + rat list list" where
  "resize_boxes scale [] = Inr []"
| "resize_boxes scale (bbox # rest) =
     (case resize_box scale bbox of
        Inl e \<Rightarrow> Inl e
      | Inr bbox' \<Rightarrow>
          (case resize_boxes scale rest of Inl e \<Rightarrow> Inl e | Inr rest' \<Rightarrow> Inr (bbox' # rest')))"

fun resize_ocr_pages :: "rat \<Rightarrow> page_ocr list \<Rightarrow> py_error + page_ocr list" where
  "resize_ocr_pages scale [] = Inr []"
| "resize_ocr_pages scale (page # rest) =
     (case resize_boxes scale (rec_boxes page) of
        Inl e \<Rightarrow> Inl e
      | Inr boxes \<Rightarrow>
          (case resize_ocr_pages scale rest of
             Inl e \<Rightarrow> Inl e
           | Inr rest' \<Rightarrow> Inr (page\<lparr>rec_boxes := boxes\<rparr> # rest')))"

definition resize_data :: "data \<Rightarrow> rat \<times> rat \<Rightarrow> rat \<times> rat \<Rightarrow> py_error + data" where
  "resize_data d pdf_size ppt_size =
     (case pdf_size of (pdf_w, pdf_h) \<Rightarrow>
        (case ppt_size of (ppt_w, ppt_h) \<Rightarrow>
           if pdf_w = 0 \<or> pdf_h = 0 then Inl ZeroDivisionError
           else (let scale_x = ppt_w / pdf_w;
                     scale_y = ppt_h / pdf_h
                 in if \<not> \<bar>scale_x - scale_y\<bar> < 1 / 100 then Inl AssertionError
                    else (let scale = scale_x;
                              d1 = update_data_size d ppt_w (Some ppt_h)
                          in case resize_ocr_pages scale (ocrResults d1) of
                               Inl e \<Rightarrow> Inl e
                             | Inr ocr \<Rightarrow>
                                 Inr (d1\<lparr>layoutParsingResults :=
                                            map (\<lambda>page. page\<lparr>parsing_res_list :=
                                                                 map (resize_block scale)
                                                                   (parsing_res_list page)\<rparr>)
                                              (layoutParsingResults d1),
                                          ocrResults := ocr\<rparr>)))))"

section \<open>The specification's vocabulary\<close>

text \<open>
  The definitions of this section follow the words of the specification; the theorems
  compare them with the functions above.
\<close>

subsection \<open>Text eligibility\<close>

text \<open>
  A marker is contained in a content as a case-insensitive substring; a block is rendered
  as text when its label is accepted, its content is not empty after trimming, and, for a
  footer, the content does not contain the watermark marker.
\<close>

definition contains_ci :: "string \<Rightarrow> string \<Rightarrow> bool" where
  "contains_ci marker content = (\<exists>pre post. lower content = pre @ lower marker @ post)"

definition text_eligible :: "block \<Rightarrow> bool" where
  "text_eligible b =
     (block_label b \<in> {''text'', ''title'', ''header'', ''footer'', ''reference'',
                        ''paragraph_title'', ''algorithm''}
      \<and> strip (block_content b) \<noteq> []
      \<and> (block_label b = ''footer'' \<longrightarrow> \<not> contains_ci ''notebooklm'' (block_content b)))"

subsection \<open>Line count\<close>

text \<open>
  The centroid of an OCR line lies inside a block; the walk over the sorted lines counts
  the lines started after the current one; \<open>lineCount\<close> selects, sorts and walks.
\<close>

definition centroid_inside :: "bbox \<Rightarrow> rat list \<Rightarrow> bool" where
  "centroid_inside bb b =
     (case bb of (bx1, by1, bx2, by2) \<Rightarrow>
        bx1 \<le> (b ! 0 + b ! 2) / 2 \<and> (b ! 0 + b ! 2) / 2 \<le> bx2
        \<and> by1 \<le> (b ! 1 + b ! 3) / 2 \<and> (b ! 1 + b ! 3) / 2 \<le> by2)"

fun new_lines :: "rat \<Rightarrow> rat \<Rightarrow> rat list list \<Rightarrow> nat" where
  "new_lines ref_centroid ref_height [] = 0"
| "new_lines ref_centroid ref_height (b # bs) =
     (if \<bar>y_center b - ref_centroid\<bar> > 0.6 * max ref_height (box_h b)
      then Suc (new_lines (y_center b) (box_h b) bs)
      else new_lines ref_centroid ref_height bs)"

definition lineCount :: "bbox \<Rightarrow> rat list list \<Rightarrow> nat" where
  "lineCount bb ocr_lines =
     (case sort_key y_center (filter (centroid_inside bb) ocr_lines) of
        [] \<Rightarrow> 0
      | first # rest \<Rightarrow> 1 + new_lines (y_center first) (box_h first) rest)"

text \<open>Centroids listed from top to bottom, each more than \<open>g\<close> below the one before.\<close>

fun gaps_exceed :: "rat \<Rightarrow> rat list \<Rightarrow> bool" where
  "gaps_exceed g (c1 # c2 # cs) = (c2 - c1 > g \<and> gaps_exceed g (c2 # cs))"
| "gaps_exceed g cs = True"

subsection \<open>Cropping to the target width\<close>

text \<open>
  A block (an OCR box) overlaps \<open>[left, right]\<close> when neither \<open>x2 \<le> left\<close> nor
  \<open>x1 \<ge> right\<close>; a kept one has its x-coordinates clipped into \<open>[0, target]\<close> relative to
  \<open>left\<close>.
\<close>

definition block_overlaps :: "int \<Rightarrow> int \<Rightarrow> block \<Rightarrow> bool" where
  "block_overlaps left right item =
     (case block_bbox item of
        None \<Rightarrow> False
      | Some (x1, y1, x2, y2) \<Rightarrow> \<not> x2 \<le> of_int left \<and> \<not> x1 \<ge> of_int right)"

definition clip_block :: "int \<Rightarrow> int \<Rightarrow> block \<Rightarrow> block" where
  "clip_block left target item =
     item\<lparr>block_bbox :=
            map_option
              (\<lambda>(x1, y1, x2, y2).
                 (max 0 (x1 - of_int left), y1, min (of_int target) (x2 - of_int left), y2))
              (block_bbox item)\<rparr>"

definition box_overlaps :: "int \<Rightarrow> int \<Rightarrow> rat list \<Rightarrow> bool" where
  "box_overlaps left right box =
     (length box \<ge> 4 \<and> \<not> box ! 2 \<le> of_int left \<and> \<not> box ! 0 \<ge> of_int right)"

definition clip_box :: "int \<Rightarrow> int \<Rightarrow> rat list \<Rightarrow> rat list" where
  "clip_box left target box =
     box[0 := max 0 (box ! 0 - of_int left),
         2 := min (of_int target) (box ! 2 - of_int left)]"

subsection \<open>Crops and erasures\<close>

text \<open>
  The expanded, pixel-mapped rectangle \<open>(l, t, r, b)\<close> of a block; the crop that a
  foreground block saves, read from a given raster; the box an erasable block has erased;
  and the erasure of a list of boxes, one after the other.
\<close>

definition pixel_rect :: "bbox \<Rightarrow> rat \<Rightarrow> int \<times> int \<Rightarrow> int \<times> int \<times> int \<times> int" where
  "pixel_rect bbox img_scale pdf_size = scale_bbox_int (expand_bbox bbox 2 pdf_size) img_scale"

definition crop_of ::
  "'px raster \<Rightarrow> rat \<Rightarrow> int \<times> int \<Rightarrow> nat \<Rightarrow> nat \<times> block \<Rightarrow> (asset \<times> 'px raster) option" where
  "crop_of img img_scale pdf_size page_idx entry =
     (case entry of (i, item) \<Rightarrow>
        if block_label item \<in> {''image'', ''table'', ''chart''}
        then (case block_bbox item of
                None \<Rightarrow> None
              | Some bbox \<Rightarrow>
                  (case pixel_rect bbox img_scale pdf_size of (l, t, r, b) \<Rightarrow>
                     if r \<le> l \<or> b \<le> t then None
                     else Some (Crop (page_idx + 1) (block_label item) i,
                                crop_raster img t b l r)))
        else None)"

definition erasable_bbox :: "block \<Rightarrow> bbox option" where
  "erasable_bbox item =
     (if block_label item \<in> {''text'', ''title'', ''header'', ''footer'', ''reference'',
                               ''paragraph_title'', ''algorithm'', ''image'', ''table'',
                               ''chart''}
      then block_bbox item else None)"

definition erase_all ::
  "'px sampler \<Rightarrow> rat \<Rightarrow> int \<times> int \<Rightarrow> 'px raster \<Rightarrow> bbox list \<Rightarrow> 'px raster" where
  "erase_all sampler img_scale pdf_size img boxes =
     foldl (\<lambda>im bbox. snd (erase_region sampler im bbox img_scale pdf_size)) img boxes"

subsection \<open>Canvas scaling\<close>

text \<open>
  An OCR box and a block scaled by the one factor with the integer rounding of
  \<open>scale_bbox\<close>.
\<close>

definition scale_box :: "rat \<Rightarrow> rat list \<Rightarrow> rat list" where
  "scale_box s box =
     (case scale_bbox (box ! 0, box ! 1, box ! 2, box ! 3) s True of
        (l, t, r, b) \<Rightarrow> [l, t, r, b])"

definition scale_block :: "rat \<Rightarrow> block \<Rightarrow> block" where
  "scale_block s item =
     item\<lparr>block_bbox := map_option (\<lambda>bbox. scale_bbox bbox s True) (block_bbox item)\<rparr>"

section \<open>Substrings and eligibility\<close>

lemma starts_with_iff: "starts_with n h \<longleftrightarrow> (\<exists>post. h = n @ post)"
  by (induction n h rule: starts_with.induct) auto

lemma py_in_iff: "py_in n h \<longleftrightarrow> (\<exists>pre post. h = pre @ n @ post)"
proof (induction h)
  case Nil
  then show ?case by auto
next
  case (Cons c cs)
  show ?case
  proof
    assume "py_in n (c # cs)"
    then consider "starts_with n (c # cs)" | "py_in n cs" by auto
    then show "\<exists>pre post. c # cs = pre @ n @ post"
    proof cases
      case 1
      then obtain post where "c # cs = n @ post" using starts_with_iff by blast
      then have "c # cs = [] @ n @ post" by simp
      then show ?thesis by blast
    next
      case 2
      then obtain pre post where "cs = pre @ n @ post" using Cons.IH by blast
      then have "c # cs = (c # pre) @ n @ post" by simp
      then show ?thesis by blast
    qed
  next
    assume "\<exists>pre post. c # cs = pre @ n @ post"
    then obtain pre post where eq: "c # cs = pre @ n @ post" by blast
    show "py_in n (c # cs)"
    proof (cases pre)
      case Nil
      with eq have "starts_with n (c # cs)" using starts_with_iff by auto
      then show ?thesis by simp
    next
      case (Cons p ps)
      with eq have "cs = ps @ n @ post" by simp
      then have "py_in n cs" using Cons.IH by blast
      then show ?thesis by simp
    qed
  qed
qed

lemma lower_marker: "lower ''notebooklm'' = ''notebooklm''"
  by code_simp

lemma should_skip_iff:
  "should_skip_text_block (block_label b) (block_content b) \<longleftrightarrow> \<not> text_eligible b"
  by (auto simp: should_skip_text_block_def text_eligible_def contains_ci_def valid_labels_def
      py_in_iff lower_marker)

lemma length4_cases: "length (b :: 'a list) = 4 \<Longrightarrow> \<exists>w x y z. b = [w, x, y, z]"
  by (cases b; simp; cases "tl b"; simp; cases "tl (tl b)"; simp; cases "tl (tl (tl b))"; simp)

section \<open>Line count\<close>

lemma contained_boxes_step:
  "contained_boxes (bx1, by1, bx2, by2) ([w, x, y, z] # ocr) =
     (case contained_boxes (bx1, by1, bx2, by2) ocr of
        Inl e \<Rightarrow> Inl e
      | Inr rest \<Rightarrow>
          Inr (if centroid_inside (bx1, by1, bx2, by2) [w, x, y, z]
               then [w, x, y, z] # rest else rest))"
  by (simp add: centroid_inside_def Let_def split: sum.splits)

lemma contained_boxes_filter:
  "\<forall>b\<in>set ocr. length b = 4 \<Longrightarrow>
     contained_boxes bb ocr = Inr (filter (centroid_inside bb) ocr)"
proof (induction ocr)
  case Nil
  then show ?case by simp
next
  case (Cons b ocr)
  then have "length b = 4" by simp
  then obtain w x y z where b: "b = [w, x, y, z]" using length4_cases by blast
  from Cons have IH: "contained_boxes bb ocr = Inr (filter (centroid_inside bb) ocr)" by simp
  obtain bx1 by1 bx2 by2 where bb: "bb = (bx1, by1, bx2, by2)" by (cases bb) auto
  show ?case unfolding b bb contained_boxes_step using IH[unfolded bb] by simp
qed

lemma line_loop:
  "fst (foldl (line_step s) (n, c, h) [k..<length s]) = n + new_lines c h (drop k s)"
proof (induction "length s - k" arbitrary: k n c h)
  case 0
  then show ?case by simp
next
  case (Suc m)
  then have k: "k < length s" by simp
  have upt: "[k..<length s] = k # [Suc k..<length s]" using k by (simp add: upt_conv_Cons)
  have drp: "drop k s = s ! k # drop (Suc k) s" using k by (simp add: Cons_nth_drop_Suc)
  have m: "m = length s - Suc k" using Suc.hyps(2) by simp
  show ?case
  proof (cases "\<bar>y_center (s ! k) - c\<bar> > 0.6 * max h (box_h (s ! k))")
    case True
    then have step: "line_step s (n, c, h) k = (n + 1, y_center (s ! k), box_h (s ! k))"
      by (simp add: line_step_def Let_def mult.commute)
    show ?thesis using Suc.hyps(1)[OF m, of "n + 1" "y_center (s ! k)" "box_h (s ! k)"] True
      by (simp add: upt drp step del: upt.simps)
  next
    case False
    then have step: "line_step s (n, c, h) k = (n, c, h)"
      by (simp add: line_step_def Let_def mult.commute)
    show ?thesis using Suc.hyps(1)[OF m, of n c h] False
      by (simp add: upt drp step del: upt.simps)
  qed
qed

lemma get_line_count_refines:
  assumes "\<forall>b\<in>set ocr. length b = 4"
  shows "get_line_count bb ocr = Inr (lineCount bb ocr)"
proof -
  let ?sel = "filter (centroid_inside bb) ocr"
  have cb: "contained_boxes bb ocr = Inr ?sel" using assms by (rule contained_boxes_filter)
  show ?thesis
  proof (cases "?sel = []")
    case True
    then show ?thesis by (simp add: get_line_count_def cb lineCount_def)
  next
    case False
    then have "sort_key y_center ?sel \<noteq> []"
      by (metis length_sort list.size(3) length_0_conv)
    then obtain first rest where s: "sort_key y_center ?sel = first # rest"
      by (cases "sort_key y_center ?sel") auto
    have "fst (foldl (line_step (first # rest)) (1, y_center first, box_h first)
                 [1..<length (first # rest)])
          = 1 + new_lines (y_center first) (box_h first) (drop 1 (first # rest))"
      by (rule line_loop)
    then show ?thesis using False
      by (simp add: get_line_count_def cb lineCount_def s Let_def del: upt.simps)
  qed
qed

lemma gaps_exceed_sorted: "0 \<le> g \<Longrightarrow> gaps_exceed g cs \<Longrightarrow> sorted cs"
proof (induction g cs rule: gaps_exceed.induct)
  case (1 g c1 c2 cs)
  then have "sorted (c2 # cs)" and lt: "c1 < c2" by auto
  then show ?case by auto
qed auto

lemma new_lines_stacked:
  assumes "\<forall>b\<in>set bs. box_h b = h"
    and "h < 0 \<or> gaps_exceed (0.6 * h) (c # map y_center bs)"
  shows "new_lines c h bs = length bs"
  using assms
proof (induction bs arbitrary: c)
  case Nil
  then show ?case by simp
next
  case (Cons b bs)
  have hb: "box_h b = h" using Cons.prems(1) by simp
  have big: "\<bar>y_center b - c\<bar> > 0.6 * max h (box_h b)"
  proof (cases "h < 0")
    case True
    have "0.6 * h < 0" using True by simp
    also have "0 \<le> \<bar>y_center b - c\<bar>" by simp
    finally show ?thesis by (simp add: hb)
  next
    case False
    with Cons.prems(2) have "y_center b - c > 0.6 * h" by simp
    moreover have "y_center b - c \<le> \<bar>y_center b - c\<bar>" by simp
    ultimately have "0.6 * h < \<bar>y_center b - c\<bar>" by linarith
    then show ?thesis by (simp add: hb)
  qed
  have rest: "h < 0 \<or> gaps_exceed (0.6 * h) (y_center b # map y_center bs)"
    using Cons.prems(2) by auto
  have "new_lines (y_center b) h bs = length bs"
    using Cons.IH[OF _ rest] Cons.prems(1) by simp
  then show ?case using big by (simp add: hb)
qed

lemma new_lines_close:
  assumes "\<forall>b\<in>set bs. box_h b = h \<and> \<bar>y_center b - c\<bar> \<le> 0.6 * h"
  shows "new_lines c h bs = 0"
  using assms by (induction bs) auto

lemma lineCount_stacked:
  assumes inside: "\<forall>b\<in>set ocr. centroid_inside bb b \<and> box_h b = h"
    and gaps: "gaps_exceed (0.6 * h) (map y_center ocr)"
  shows "lineCount bb ocr = length ocr"
proof -
  have sel: "filter (centroid_inside bb) ocr = ocr" using inside by (simp add: filter_id_conv)
  show ?thesis
  proof (cases "h < 0")
    case True
    let ?s = "sort_key y_center ocr"
    have len: "length ?s = length ocr" by simp
    have hs: "\<forall>b\<in>set ?s. box_h b = h" using inside by simp
    show ?thesis
    proof (cases ?s)
      case Nil
      then show ?thesis using len by (simp add: lineCount_def sel)
    next
      case (Cons first rest)
      then have "\<forall>b\<in>set rest. box_h b = h" and "box_h first = h" using hs by auto
      then have "new_lines (y_center first) h rest = length rest"
        using True new_lines_stacked by blast
      then show ?thesis using Cons len \<open>box_h first = h\<close> by (simp add: lineCount_def sel)
    qed
  next
    case False
    then have "0 \<le> 0.6 * h" by simp
    then have "sorted (map y_center ocr)" using gaps gaps_exceed_sorted by blast
    then have srt: "sort_key y_center ocr = ocr" by (rule sort_key_id_if_sorted)
    show ?thesis
    proof (cases ocr)
      case Nil
      then show ?thesis by (simp add: lineCount_def)
    next
      case (Cons first rest)
      then have "\<forall>b\<in>set rest. box_h b = h" and hf: "box_h first = h" using inside by auto
      moreover have "gaps_exceed (0.6 * h) (y_center first # map y_center rest)"
        using gaps Cons by simp
      ultimately have "new_lines (y_center first) h rest = length rest"
        using new_lines_stacked by blast
      then show ?thesis using Cons srt sel hf by (simp add: lineCount_def)
    qed
  qed
qed

lemma lineCount_close:
  assumes ne: "ocr \<noteq> []"
    and inside: "\<forall>b\<in>set ocr. centroid_inside bb b \<and> box_h b = h"
    and close: "\<forall>a\<in>set ocr. \<forall>b\<in>set ocr. \<bar>y_center a - y_center b\<bar> \<le> 0.6 * h"
  shows "lineCount bb ocr = 1"
proof -
  have sel: "filter (centroid_inside bb) ocr = ocr" using inside by (simp add: filter_id_conv)
  let ?s = "sort_key y_center ocr"
  have "?s \<noteq> []" using ne by (metis length_sort length_0_conv)
  then obtain first rest where s: "?s = first # rest" by (cases ?s) auto
  have "set ?s = set ocr" by simp
  then have mem: "first \<in> set ocr" "set rest \<subseteq> set ocr" using s by auto
  then have "\<forall>b\<in>set rest. box_h b = h \<and> \<bar>y_center b - y_center first\<bar> \<le> 0.6 * h"
    using inside close by blast
  then have "new_lines (y_center first) h rest = 0" by (rule new_lines_close)
  moreover have "box_h first = h" using mem inside by blast
  ultimately show ?thesis using s by (simp add: lineCount_def sel)
qed

text \<open>
  C2, as stated: lines with gaps smaller than \<open>0.6 * height\<close> give count 1. Three lines
  of height 10 whose centroids are 5 apart (less than 6) give 2: the third line is compared
  with the first line of the current cluster, 10 away, not with its neighbour.
\<close>

theorem c2_line_count_counterexample:
  "get_line_count (0, 0, 10, 20) [[0, 0, 10, 10], [0, 5, 10, 15], [0, 10, 10, 20]] = Inr 2
   \<and> y_center [0, 5, 10, 15] - y_center [0, 0, 10, 10] < 0.6 * box_h [0, 0, 10, 10]
   \<and> y_center [0, 10, 10, 20] - y_center [0, 5, 10, 15] < 0.6 * box_h [0, 0, 10, 10]"
  by code_simp

text \<open>
  C2, amended: for OCR boxes of four coordinates, \<open>get_line_count\<close> selects the boxes whose
  centroid lies inside the block, returns 0 when there is none, and otherwise sorts them by
  vertical centroid and counts one line plus the lines started by the walk, which starts a
  line exactly when \<open>|centroid - reference centroid| > 0.6 * max(reference height, height)\<close>
  and then takes the box as the new reference. Consequently, lines of equal height listed
  from top to bottom with centroid gaps greater than \<open>0.6 * height\<close> give their number, and
  lines of equal height whose centroids all lie within \<open>0.6 * height\<close> of each other (so
  of the topmost one) give 1.
\<close>

theorem c2_line_count:
  assumes "\<forall>b\<in>set ocr. length b = 4"
  shows "get_line_count bb ocr = Inr (lineCount bb ocr)
    \<and> ((\<forall>b\<in>set ocr. centroid_inside bb b \<and> box_h b = h)
         \<and> gaps_exceed (0.6 * h) (map y_center ocr)
       \<longrightarrow> get_line_count bb ocr = Inr (length ocr))
    \<and> (ocr \<noteq> [] \<and> (\<forall>b\<in>set ocr. centroid_inside bb b \<and> box_h b = h)
         \<and> (\<forall>a\<in>set ocr. \<forall>b\<in>set ocr. \<bar>y_center a - y_center b\<bar> \<le> 0.6 * h)
       \<longrightarrow> get_line_count bb ocr = Inr 1)"
proof -
  have ref: "get_line_count bb ocr = Inr (lineCount bb ocr)"
    using assms by (rule get_line_count_refines)
  have stacked: "get_line_count bb ocr = Inr (length ocr)"
    if "(\<forall>b\<in>set ocr. centroid_inside bb b \<and> box_h b = h)
        \<and> gaps_exceed (0.6 * h) (map y_center ocr)"
    using that ref lineCount_stacked[of ocr bb h] by simp
  have close: "get_line_count bb ocr = Inr 1"
    if "ocr \<noteq> [] \<and> (\<forall>b\<in>set ocr. centroid_inside bb b \<and> box_h b = h)
        \<and> (\<forall>a\<in>set ocr. \<forall>b\<in>set ocr. \<bar>y_center a - y_center b\<bar> \<le> 0.6 * h)"
    using that ref lineCount_close[of ocr bb h] by simp
  from ref stacked close show ?thesis by blast
qed

theorem c2_line_count_witness:
  "get_line_count (0, 0, 10, 40) [[0, 0, 10, 10], [0, 7, 10, 17], [0, 14, 10, 24]] = Inr 3
   \<and> get_line_count (0, 0, 10, 40) [[0, 0, 10, 10], [0, 6, 10, 16]] = Inr 1"
proof -
  let ?bb = "(0, 0, 10, 40) :: bbox"
  let ?three = "[[0, 0, 10, 10], [0, 7, 10, 17], [0, 14, 10, 24]] :: rat list list"
  let ?two = "[[0, 0, 10, 10], [0, 6, 10, 16]] :: rat list list"
  have wf3: "\<forall>b\<in>set ?three. length b = 4" by simp
  have hyp3: "(\<forall>b\<in>set ?three. centroid_inside ?bb b \<and> box_h b = 10)
              \<and> gaps_exceed (0.6 * 10) (map y_center ?three)"
    by (simp add: centroid_inside_def box_h_def y_center_def)
  from c2_line_count[OF wf3, of ?bb 10] hyp3
  have "get_line_count ?bb ?three = Inr (length ?three)" by blast
  then have a: "get_line_count ?bb ?three = Inr 3" by simp
  have wf2: "\<forall>b\<in>set ?two. length b = 4" by simp
  have hyp2: "?two \<noteq> [] \<and> (\<forall>b\<in>set ?two. centroid_inside ?bb b \<and> box_h b = 10)
              \<and> (\<forall>a\<in>set ?two. \<forall>b\<in>set ?two. \<bar>y_center a - y_center b\<bar> \<le> 0.6 * 10)"
    by (simp add: centroid_inside_def box_h_def y_center_def)
  from c2_line_count[OF wf2, of ?bb 10] hyp2
  have b: "get_line_count ?bb ?two = Inr 1" by blast
  from a b show ?thesis by simp
qed

section \<open>Text shapes\<close>

lemma create_text_shape_appends:
  "\<exists>t. create_text_shape slide content label bbox scale pw ph fs font dy = slide @ [TextShape t]
       \<and> ts_name t = ''Block_'' @ label \<and> ts_text t = content"
  by (cases bbox) (simp add: create_text_shape_def Let_def split: prod.splits)

text \<open>
  C1: with OCR boxes of four coordinates, \<open>process_text_blocks\<close> appends to the slide one
  text shape for each block that has a bbox and is text-eligible, in the order of the
  layout list, carrying the block's label and content, and no other shape: a block with a
  bbox gets a text shape if and only if its label is accepted, its content is not empty
  after trimming and, for a footer, does not contain the watermark marker.
\<close>

theorem c1_text_blocks:
  assumes "\<forall>b\<in>set ocr_boxes. length b = 4"
  shows "\<exists>shapes.
           process_text_blocks slide blocks ocr_boxes scale ppt_width ppt_height font_name
             = Inr (slide @ map TextShape shapes)
           \<and> map (\<lambda>t. (ts_name t, ts_text t)) shapes
             = map (\<lambda>b. (''Block_'' @ block_label b, block_content b))
                 (filter (\<lambda>b. block_bbox b \<noteq> None \<and> text_eligible b) blocks)"
proof (induction blocks arbitrary: slide)
  case Nil
  have "process_text_blocks slide [] ocr_boxes scale ppt_width ppt_height font_name
          = Inr (slide @ map TextShape [])" by simp
  then show ?case by fastforce
next
  case (Cons item blocks)
  show ?case
  proof (cases "block_bbox item")
    case None
    then show ?thesis using Cons.IH[of slide] by simp
  next
    case (Some bbox)
    show ?thesis
    proof (cases "text_eligible item")
      case False
      then have "should_skip_text_block (block_label item) (block_content item)"
        using should_skip_iff by blast
      then show ?thesis using Cons.IH[of slide] Some False by simp
    next
      case True
      then have noskip: "\<not> should_skip_text_block (block_label item) (block_content item)"
        using should_skip_iff by blast
      have lc: "get_line_count bbox ocr_boxes = Inr (lineCount bbox ocr_boxes)"
        using assms by (rule get_line_count_refines)
      obtain bx1 by1 bx2 by2 where bb: "bbox = (bx1, by1, bx2, by2)" by (cases bbox) auto
      let ?fs = "calculate_font_size ((by2 - by1) * scale) 8 (lineCount bbox ocr_boxes > 1)
                   (int (lineCount bbox ocr_boxes))"
      let ?slide' = "create_text_shape slide (block_content item) (block_label item) bbox scale
                       ppt_width ppt_height ?fs font_name 2"
      have step: "process_text_blocks slide (item # blocks) ocr_boxes scale ppt_width ppt_height
                    font_name
                  = process_text_blocks ?slide' blocks ocr_boxes scale ppt_width ppt_height
                      font_name"
        using Some noskip lc by (simp add: bb Let_def)
      obtain t where t: "?slide' = slide @ [TextShape t]"
        "ts_name t = ''Block_'' @ block_label item" "ts_text t = block_content item"
        using create_text_shape_appends by blast
      obtain shapes where sh:
        "process_text_blocks ?slide' blocks ocr_boxes scale ppt_width ppt_height font_name
           = Inr (?slide' @ map TextShape shapes)"
        "map (\<lambda>t. (ts_name t, ts_text t)) shapes
           = map (\<lambda>b. (''Block_'' @ block_label b, block_content b))
               (filter (\<lambda>b. block_bbox b \<noteq> None \<and> text_eligible b) blocks)"
        using Cons.IH[of ?slide'] by blast
      have "process_text_blocks slide (item # blocks) ocr_boxes scale ppt_width ppt_height
              font_name = Inr (slide @ map TextShape (t # shapes))"
        using step sh(1) t(1) by simp
      moreover have "map (\<lambda>t. (ts_name t, ts_text t)) (t # shapes)
           = map (\<lambda>b. (''Block_'' @ block_label b, block_content b))
               (filter (\<lambda>b. block_bbox b \<noteq> None \<and> text_eligible b) (item # blocks))"
        using sh(2) t(2,3) Some True bb by simp
      ultimately show ?thesis by blast
    qed
  qed
qed

lemma text_eligible_code:
  "text_eligible b = (\<not> should_skip_text_block (block_label b) (block_content b))"
  using should_skip_iff by blast

theorem c1_text_blocks_witness:
  "\<exists>shapes.
     process_text_blocks []
       [\<lparr>block_label = ''title'', block_content = ''Overview'',
           block_bbox = Some (100, 50, 900, 150)\<rparr>,
        \<lparr>block_label = ''footer'', block_content = ''Made with NotebookLM'',
           block_bbox = Some (100, 950, 900, 990)\<rparr>,
        \<lparr>block_label = ''image'', block_content = ''a chart'',
           block_bbox = Some (10, 10, 50, 50)\<rparr>,
        \<lparr>block_label = ''text'', block_content = ''  '',
           block_bbox = Some (100, 200, 900, 300)\<rparr>,
        \<lparr>block_label = ''text'', block_content = ''body'', block_bbox = None\<rparr>]
       [[100, 60, 300, 100]] 1 1000 1000 ''Calibri''
       = Inr ([] @ map TextShape shapes)
     \<and> map (\<lambda>t. (ts_name t, ts_text t)) shapes = [(''Block_title'', ''Overview'')]"
proof -
  have wf: "\<forall>b\<in>set [[100, 60, 300, 100 :: rat]]. length b = 4" by simp
  have s1: "\<not> should_skip_text_block ''title'' ''Overview''" by code_simp
  have s2: "should_skip_text_block ''footer'' ''Made with NotebookLM''" by code_simp
  have s3: "should_skip_text_block ''image'' ''a chart''" by code_simp
  have s4: "should_skip_text_block ''text'' ''  ''" by code_simp
  show ?thesis
    using c1_text_blocks[OF wf, of "[]"
        "[\<lparr>block_label = ''title'', block_content = ''Overview'',
            block_bbox = Some (100, 50, 900, 150)\<rparr>,
          \<lparr>block_label = ''footer'', block_content = ''Made with NotebookLM'',
            block_bbox = Some (100, 950, 900, 990)\<rparr>,
          \<lparr>block_label = ''image'', block_content = ''a chart'',
            block_bbox = Some (10, 10, 50, 50)\<rparr>,
          \<lparr>block_label = ''text'', block_content = ''  '',
            block_bbox = Some (100, 200, 900, 300)\<rparr>,
          \<lparr>block_label = ''text'', block_content = ''body'', block_bbox = None\<rparr>]"
        1 1000 1000 "''Calibri''"]
    by (simp add: text_eligible_code s1 s2 s3 s4)
qed

section \<open>Font size\<close>

lemma py_int_of_int: "py_int (of_int n) = n"
  by (simp add: py_int_def)

lemma py_int_nonneg: "0 \<le> x \<Longrightarrow> py_int x = \<lfloor>x\<rfloor>"
  by (simp add: py_int_def)

text \<open>
  C3, as stated: the font size is \<open>height * 0.75\<close> (or \<open>height / lineCount * 0.75\<close>) clamped
  below by the minimum. For a height of 41 and one line that would be \<open>30.75\<close>; the
  function returns the integer 30.
\<close>

theorem c3_font_size_counterexample:
  "rat_of_int (calculate_font_size 41 8 False 1) \<noteq> max 8 (41 * 0.75)"
  by code_simp

text \<open>
  C3, amended: called as \<open>process_text_blocks\<close> calls it (\<open>is_multiline\<close> is
  \<open>line_count > 1\<close>), \<open>calculate_font_size\<close> returns \<open>height / line_count * 0.75\<close> when
  \<open>line_count > 1\<close> and \<open>height * 0.75\<close> otherwise, truncated toward zero to an integer and
  then clamped below by the minimum font size; for a height of 40 it returns
  \<open>max 8 30\<close> with one line and \<open>max 8 15\<close> with two.
\<close>

theorem c3_font_size:
  "calculate_font_size h m (lc > 1) lc =
     max m (py_int (if lc > 1 then (h / of_int lc) * 0.75 else h * 0.75))
   \<and> calculate_font_size 40 8 False 1 = max 8 30
   \<and> calculate_font_size 40 8 True 2 = max 8 15"
proof -
  have general: "calculate_font_size h m (lc > 1) lc =
     max m (py_int (if lc > 1 then (h / of_int lc) * 0.75 else h * 0.75))"
    by (simp add: calculate_font_size_def)
  have one: "calculate_font_size 40 8 False 1 = max 8 30"
    by code_simp
  have two: "calculate_font_size 40 8 True 2 = max 8 15"
    by code_simp
  from general one two show ?thesis by blast
qed

section \<open>Scaling with integer rounding\<close>

text \<open>
  Where the top-left pair scales to non-negative numbers, truncation is the floor and the
  integer rectangle contains the scaled box.
\<close>

lemma scale_bbox_contains_nonneg:
  assumes "0 \<le> l * s" and "0 \<le> t * s"
  shows "case scale_bbox (l, t, r, b) s True of (l', t', r', b') \<Rightarrow>
           l' \<le> l * s \<and> t' \<le> t * s \<and> r * s \<le> r' \<and> b * s \<le> b'"
  using assms by (simp add: scale_bbox_def scale_bbox_int_def py_int_def np_ceil_def)

text \<open>
  C6: with \<open>make_int=True\<close> the integer rectangle should contain the scaled box. For the box
  \<open>(-3, -3, 5, 5)\<close> and the factor \<open>1/2\<close> the scaled box starts at \<open>-3/2\<close>; \<open>int()\<close> truncates
  toward zero and the returned rectangle starts at \<open>-1\<close>, to the right of and below the
  scaled corner.
\<close>

theorem c6_scale_bbox_truncates:
  "scale_bbox (- 3, - 3, 5, 5) (1 / 2) True = (- 1, - 1, 3, 3)
   \<and> - 3 * (1 / 2) < (- 1 :: rat)"
  by code_simp

section \<open>Aspect conformance\<close>

lemma crop_blocks_filter:
  "crop_blocks left right target items
     = map (clip_block left target) (filter (block_overlaps left right) items)"
proof (induction items)
  case Nil
  then show ?case by simp
next
  case (Cons item items)
  show ?case
  proof (cases "block_bbox item")
    case None
    then show ?thesis using Cons by (simp add: block_overlaps_def)
  next
    case (Some bb)
    obtain x1 y1 x2 y2 where bb: "bb = (x1, y1, x2, y2)" by (cases bb) auto
    show ?thesis using Cons Some
      by (simp add: bb block_overlaps_def clip_block_def Let_def not_le)
  qed
qed

lemma crop_boxes_filter:
  "crop_boxes left right target boxes
     = map (clip_box left target) (filter (box_overlaps left right) boxes)"
  by (induction boxes) (auto simp: box_overlaps_def clip_box_def Let_def not_le)

lemma make_noop:
  assumes "layoutParsingResults d = p # ps"
    and "py_round (of_int (height p) * 16 / 9) = width p"
  shows "make_data_wide_screen d = d"
  using assms by (simp add: make_data_wide_screen_def)

lemma make_crop:
  assumes "layoutParsingResults d = p # ps"
    and "py_round (of_int (height p) * 16 / 9) < width p"
  shows "make_data_wide_screen d =
     (let target = py_round (of_int (height p) * 16 / 9);
          left = (width p - target) div 2;
          right = left + target;
          d1 = update_data_size d (of_int target) None
      in d1\<lparr>layoutParsingResults :=
              map (\<lambda>page. page\<lparr>width := target,
                                 parsing_res_list :=
                                   crop_blocks left right target (parsing_res_list page)\<rparr>)
                (layoutParsingResults d1),
            ocrResults :=
              map (\<lambda>page. page\<lparr>rec_boxes := crop_boxes left right target (rec_boxes page)\<rparr>)
                (ocrResults d1)\<rparr>)"
  using assms by (simp add: make_data_wide_screen_def Let_def)

lemma make_pad:
  assumes "layoutParsingResults d = p # ps"
    and "py_round (of_int (height p) * 16 / 9) > width p"
  shows "make_data_wide_screen d =
     (let target = py_round (of_int (height p) * 16 / 9);
          offset_x = (target - width p) div 2;
          d1 = update_data_size d (of_int target) None
      in d1\<lparr>layoutParsingResults :=
              map (\<lambda>page. page\<lparr>parsing_res_list :=
                                   map (shift_block offset_x) (parsing_res_list page)\<rparr>)
                (layoutParsingResults d1),
            ocrResults :=
              map (\<lambda>page. page\<lparr>rec_boxes := map (shift_box offset_x) (rec_boxes page)\<rparr>)
                (ocrResults d1)\<rparr>)"
  using assms by (simp add: make_data_wide_screen_def Let_def)

lemma update_layout:
  "layoutParsingResults (update_data_size d (of_int w) None)
     = map (\<lambda>page. page\<lparr>width := w\<rparr>) (layoutParsingResults d)"
  by (simp add: update_data_size_def py_int_of_int)

lemma update_ocr: "ocrResults (update_data_size d w h) = ocrResults d"
  by (simp add: update_data_size_def Let_def)

text \<open>
  C4: in the cropping branch (the target width is smaller than the first page's width), the
  block list of every page becomes the blocks that have a bbox overlapping \<open>[left, right]\<close>,
  each with its x-coordinates clipped to \<open>[max(0, x1 - left), min(target, x2 - left)]\<close>; the
  OCR boxes of every page are filtered and clipped by the same rule, from the OCR boxes
  alone; a block entirely outside \<open>[left, right]\<close> does not overlap, so it is absent; a block
  entirely inside is only shifted by \<open>left\<close>, so its width is kept.
\<close>

theorem c4_crop:
  assumes pages: "layoutParsingResults d = first # others"
    and target: "target = py_round (of_int (height first) * 16 / 9)"
    and narrower: "target < width first"
    and left: "left = (width first - target) div 2"
    and right: "right = left + target"
  shows "map parsing_res_list (layoutParsingResults (make_data_wide_screen d))
           = map (\<lambda>page. map (clip_block left target)
                            (filter (block_overlaps left right) (parsing_res_list page)))
               (layoutParsingResults d)
    \<and> map rec_boxes (ocrResults (make_data_wide_screen d))
           = map (\<lambda>page. map (clip_box left target)
                            (filter (box_overlaps left right) (rec_boxes page)))
               (ocrResults d)
    \<and> (\<forall>item x1 y1 x2 y2.
          block_bbox item = Some (x1, y1, x2, y2) \<and> (x2 \<le> of_int left \<or> of_int right \<le> x1)
          \<longrightarrow> \<not> block_overlaps left right item)
    \<and> (\<forall>item x1 y1 x2 y2.
          block_bbox item = Some (x1, y1, x2, y2) \<and> of_int left \<le> x1 \<and> x2 \<le> of_int right
          \<longrightarrow> block_bbox (clip_block left target item)
                = Some (x1 - of_int left, y1, x2 - of_int left, y2)
              \<and> (x2 - of_int left) - (x1 - of_int left) = x2 - x1)"
proof -
  have m: "make_data_wide_screen d =
     (let d1 = update_data_size d (of_int target) None
      in d1\<lparr>layoutParsingResults :=
              map (\<lambda>page. page\<lparr>width := target,
                                 parsing_res_list :=
                                   crop_blocks left right target (parsing_res_list page)\<rparr>)
                (layoutParsingResults d1),
            ocrResults :=
              map (\<lambda>page. page\<lparr>rec_boxes := crop_boxes left right target (rec_boxes page)\<rparr>)
                (ocrResults d1)\<rparr>)"
    using make_crop[OF pages] narrower target left right by (simp add: Let_def)
  have blocks: "map parsing_res_list (layoutParsingResults (make_data_wide_screen d))
           = map (\<lambda>page. map (clip_block left target)
                            (filter (block_overlaps left right) (parsing_res_list page)))
               (layoutParsingResults d)"
    by (simp add: m Let_def update_layout crop_blocks_filter comp_def)
  have boxes: "map rec_boxes (ocrResults (make_data_wide_screen d))
           = map (\<lambda>page. map (clip_box left target)
                            (filter (box_overlaps left right) (rec_boxes page)))
               (ocrResults d)"
    by (simp add: m Let_def update_ocr crop_boxes_filter comp_def)
  have outside: "\<forall>item x1 y1 x2 y2.
          block_bbox item = Some (x1, y1, x2, y2) \<and> (x2 \<le> of_int left \<or> of_int right \<le> x1)
          \<longrightarrow> \<not> block_overlaps left right item"
    by (auto simp: block_overlaps_def)
  have inside: "\<forall>item x1 y1 x2 y2.
          block_bbox item = Some (x1, y1, x2, y2) \<and> of_int left \<le> x1 \<and> x2 \<le> of_int right
          \<longrightarrow> block_bbox (clip_block left target item)
                = Some (x1 - of_int left, y1, x2 - of_int left, y2)
              \<and> (x2 - of_int left) - (x1 - of_int left) = x2 - x1"
    using right by (auto simp: clip_block_def)
  from blocks boxes outside inside show ?thesis by blast
qed

text \<open>
  C5: when the first page's width already is the target width \<open>round(height * 16 / 9)\<close>,
  \<open>make_data_wide_screen\<close> returns its argument, and applying it twice is applying it once.
\<close>

theorem c5_idempotent:
  "(\<forall>first others.
      layoutParsingResults d = first # others
      \<and> width first = py_round (of_int (height first) * 16 / 9)
      \<longrightarrow> make_data_wide_screen d = d)
   \<and> make_data_wide_screen (make_data_wide_screen d) = make_data_wide_screen d"
proof -
  have noop: "\<forall>first others.
      layoutParsingResults d = first # others
      \<and> width first = py_round (of_int (height first) * 16 / 9)
      \<longrightarrow> make_data_wide_screen d = d"
    using make_noop by metis
  have idem: "make_data_wide_screen (make_data_wide_screen d) = make_data_wide_screen d"
  proof (cases "layoutParsingResults d")
    case Nil
    then show ?thesis by (simp add: make_data_wide_screen_def)
  next
    case (Cons p ps)
    let ?t = "py_round (of_int (height p) * 16 / 9)"
    consider "?t = width p" | "?t > width p" | "?t < width p" by linarith
    then show ?thesis
    proof cases
      case 1
      then show ?thesis using make_noop[OF Cons] by simp
    next
      case 2
      let ?d' = "make_data_wide_screen d"
      obtain p' ps' where l': "layoutParsingResults ?d' = p' # ps'"
        and "height p' = height p" and "width p' = ?t"
        using make_pad[OF Cons 2] Cons by (simp add: Let_def update_layout)
      then show ?thesis using make_noop[OF l'] by simp
    next
      case 3
      let ?d' = "make_data_wide_screen d"
      obtain p' ps' where l': "layoutParsingResults ?d' = p' # ps'"
        and "height p' = height p" and "width p' = ?t"
        using make_crop[OF Cons 3] Cons by (simp add: Let_def update_layout)
      then show ?thesis using make_noop[OF l'] by simp
    qed
  qed
  from noop idem show ?thesis by blast
qed

theorem c4_crop_witness:
  "map parsing_res_list
     (layoutParsingResults
        (make_data_wide_screen
           \<lparr>layoutParsingResults =
              [\<lparr>width = 2000, height = 900,
                 parsing_res_list =
                   [\<lparr>block_label = ''title'', block_content = ''Overview'',
                       block_bbox = Some (100, 50, 900, 150)\<rparr>,
                    \<lparr>block_label = ''text'', block_content = ''left margin'',
                       block_bbox = Some (10, 50, 200, 150)\<rparr>,
                    \<lparr>block_label = ''text'', block_content = ''inside'',
                       block_bbox = Some (300, 200, 500, 250)\<rparr>,
                    \<lparr>block_label = ''text'', block_content = ''right margin'',
                       block_bbox = Some (1900, 50, 1950, 150)\<rparr>]\<rparr>],
            ocrResults = [\<lparr>rec_boxes = [[100, 50, 900, 150], [10, 50, 200, 150], [1, 2, 3]]\<rparr>],
            dataInfo = None\<rparr>))
   = [[\<lparr>block_label = ''title'', block_content = ''Overview'',
         block_bbox = Some (0, 50, 700, 150)\<rparr>,
       \<lparr>block_label = ''text'', block_content = ''inside'',
         block_bbox = Some (100, 200, 300, 250)\<rparr>]]
   \<and> map rec_boxes
       (ocrResults
          (make_data_wide_screen
             \<lparr>layoutParsingResults =
                [\<lparr>width = 2000, height = 900,
                   parsing_res_list =
                     [\<lparr>block_label = ''title'', block_content = ''Overview'',
                         block_bbox = Some (100, 50, 900, 150)\<rparr>,
                      \<lparr>block_label = ''text'', block_content = ''left margin'',
                         block_bbox = Some (10, 50, 200, 150)\<rparr>,
                      \<lparr>block_label = ''text'', block_content = ''inside'',
                         block_bbox = Some (300, 200, 500, 250)\<rparr>,
                      \<lparr>block_label = ''text'', block_content = ''right margin'',
                         block_bbox = Some (1900, 50, 1950, 150)\<rparr>]\<rparr>],
              ocrResults = [\<lparr>rec_boxes = [[100, 50, 900, 150], [10, 50, 200, 150], [1, 2, 3]]\<rparr>],
              dataInfo = None\<rparr>))
     = [[[0, 50, 700, 150]]]"
proof -
  let ?first = "\<lparr>width = 2000, height = 900,
                 parsing_res_list =
                   [\<lparr>block_label = ''title'', block_content = ''Overview'',
                       block_bbox = Some (100, 50, 900, 150)\<rparr>,
                    \<lparr>block_label = ''text'', block_content = ''left margin'',
                       block_bbox = Some (10, 50, 200, 150)\<rparr>,
                    \<lparr>block_label = ''text'', block_content = ''inside'',
                       block_bbox = Some (300, 200, 500, 250)\<rparr>,
                    \<lparr>block_label = ''text'', block_content = ''right margin'',
                       block_bbox = Some (1900, 50, 1950, 150)\<rparr>]\<rparr>"
  let ?d = "\<lparr>layoutParsingResults = [?first],
            ocrResults = [\<lparr>rec_boxes = [[100, 50, 900, 150], [10, 50, 200, 150], [1, 2, 3]]\<rparr>],
            dataInfo = None\<rparr>"
  have pages: "layoutParsingResults ?d = ?first # []" by simp
  have r: "py_round (900 * 16 / 9) = 1600" by code_simp
  have target: "(1600::int) = py_round (of_int (height ?first) * 16 / 9)" using r by simp
  have narrower: "(1600::int) < width ?first" by simp
  have left: "(200::int) = (width ?first - 1600) div 2" by simp
  have right: "(1800::int) = 200 + 1600" by simp
  show ?thesis
    using c4_crop[OF pages target narrower left right]
    by (simp add: clip_block_def block_overlaps_def clip_box_def box_overlaps_def)
qed

theorem c5_idempotent_witness:
  "make_data_wide_screen
     \<lparr>layoutParsingResults =
        [\<lparr>width = 1600, height = 900,
           parsing_res_list =
             [\<lparr>block_label = ''title'', block_content = ''Overview'',
                 block_bbox = Some (100, 50, 900, 150)\<rparr>]\<rparr>],
      ocrResults = [\<lparr>rec_boxes = [[100, 50, 900, 150]]\<rparr>],
      dataInfo = None\<rparr>
   = \<lparr>layoutParsingResults =
        [\<lparr>width = 1600, height = 900,
           parsing_res_list =
             [\<lparr>block_label = ''title'', block_content = ''Overview'',
                 block_bbox = Some (100, 50, 900, 150)\<rparr>]\<rparr>],
      ocrResults = [\<lparr>rec_boxes = [[100, 50, 900, 150]]\<rparr>],
      dataInfo = None\<rparr>"
proof -
  let ?first = "\<lparr>width = 1600, height = 900,
           parsing_res_list =
             [\<lparr>block_label = ''title'', block_content = ''Overview'',
                 block_bbox = Some (100, 50, 900, 150)\<rparr>]\<rparr>"
  let ?d = "\<lparr>layoutParsingResults = [?first],
      ocrResults = [\<lparr>rec_boxes = [[100, 50, 900, 150]]\<rparr>],
      dataInfo = None\<rparr>"
  have r: "py_round (900 * 16 / 9) = 1600" by code_simp
  have hyp: "layoutParsingResults ?d = ?first # []
             \<and> width ?first = py_round (of_int (height ?first) * 16 / 9)"
    using r by simp
  from c5_idempotent[of ?d] hyp show ?thesis by blast
qed

section \<open>Erasing a region\<close>

lemma slice_bounds_nonneg:
  "0 \<le> lo \<Longrightarrow> 0 \<le> hi \<Longrightarrow> slice_bounds n lo hi = (min (nat lo) n, min (nat hi) n)"
  by (auto simp: slice_bounds_def Let_def min_def)

lemma length_assign_slice: "length (assign_slice xs lo hi f) = length xs"
  by (simp add: assign_slice_def split: prod.splits)

lemma assign_slice_nth:
  assumes "0 \<le> lo" and "0 \<le> hi" and "i < length xs"
  shows "assign_slice xs lo hi f ! i = (if lo \<le> int i \<and> int i < hi then f (xs ! i) else xs ! i)"
proof -
  have sb: "slice_bounds (length xs) lo hi = (min (nat lo) (length xs), min (nat hi) (length xs))"
    using assms(1,2) by (rule slice_bounds_nonneg)
  have "assign_slice xs lo hi f ! i =
          (if min (nat lo) (length xs) \<le> i \<and> i < min (nat hi) (length xs)
           then f (xs ! i) else xs ! i)"
    using assms(3) by (simp add: assign_slice_def sb nth_enumerate_eq)
  also have "\<dots> = (if lo \<le> int i \<and> int i < hi then f (xs ! i) else xs ! i)"
    using assms by auto
  finally show ?thesis .
qed

lemma fill_raster_length: "length (fill_raster img t b l r c) = length img"
  by (simp add: fill_raster_def length_assign_slice)

lemma fill_raster_row_length:
  assumes "0 \<le> t" and "0 \<le> b" and "i < length img"
  shows "length (fill_raster img t b l r c ! i) = length (img ! i)"
  using assms by (simp add: fill_raster_def assign_slice_nth length_assign_slice)

lemma fill_raster_pixel:
  assumes "0 \<le> t" and "0 \<le> b" and "0 \<le> l" and "0 \<le> r"
    and "i < length img" and "j < length (img ! i)"
  shows "fill_raster img t b l r c ! i ! j =
           (if t \<le> int i \<and> int i < b \<and> l \<le> int j \<and> int j < r then c else img ! i ! j)"
  using assms by (simp add: fill_raster_def assign_slice_nth)

lemma pixel_rect_nonneg:
  assumes "0 \<le> img_scale" and "pixel_rect bbox img_scale pdf_size = (l, t, r, b)"
  shows "0 \<le> l \<and> 0 \<le> t"
proof -
  obtain x1 y1 x2 y2 where bb: "bbox = (x1, y1, x2, y2)" by (cases bbox) auto
  obtain w h where ps: "pdf_size = (w, h)" by (cases pdf_size) auto
  have "0 \<le> max 0 (x1 - 2) * img_scale" and "0 \<le> max 0 (y1 - 2) * img_scale"
    using assms(1) by simp_all
  then have "0 \<le> py_int (max 0 (x1 - 2) * img_scale)" and "0 \<le> py_int (max 0 (y1 - 2) * img_scale)"
    by (simp_all add: py_int_def)
  then show ?thesis using assms(2)
    by (simp add: pixel_rect_def bb ps expand_bbox_def scale_bbox_int_def)
qed

lemma erase_region_skip:
  assumes "pixel_rect bbox img_scale pdf_size = (l, t, r, b)" and "r \<le> l \<or> b \<le> t"
  shows "erase_region sampler img bbox img_scale pdf_size = (False, img)"
  using assms by (auto simp: erase_region_def pixel_rect_def Let_def)

lemma erase_region_fill:
  assumes "pixel_rect bbox img_scale pdf_size = (l, t, r, b)" and "\<not> (r \<le> l \<or> b \<le> t)"
  shows "erase_region sampler img bbox img_scale pdf_size
           = (True, fill_raster img t b l r (snd (sampler img l t r b 20)))"
  using assms by (auto simp: erase_region_def pixel_rect_def Let_def)

text \<open>
  C10: for a non-negative image scale, with \<open>(l, t, r, b)\<close> the scaled, expanded rectangle
  of the box: when \<open>r \<le> l\<close> or \<open>b \<le> t\<close>, \<open>erase_region\<close> returns \<open>False\<close> and the raster as
  it was; otherwise it returns \<open>True\<close> and a raster of the same shape in which every pixel
  inside \<open>[l, r) x [t, b)\<close> is the sampled fill colour and every other pixel is unchanged.
\<close>

theorem c10_erase_region_frame:
  assumes scale: "0 \<le> img_scale"
    and rect: "pixel_rect bbox img_scale pdf_size = (l, t, r, b)"
  shows "(r \<le> l \<or> b \<le> t \<longrightarrow>
            erase_region sampler image_cv bbox img_scale pdf_size = (False, image_cv))
    \<and> (\<not> (r \<le> l \<or> b \<le> t) \<longrightarrow>
         (\<exists>out. erase_region sampler image_cv bbox img_scale pdf_size = (True, out)
            \<and> length out = length image_cv
            \<and> (\<forall>i < length image_cv.
                  length (out ! i) = length (image_cv ! i)
                  \<and> (\<forall>j < length (image_cv ! i).
                        out ! i ! j =
                          (if t \<le> int i \<and> int i < b \<and> l \<le> int j \<and> int j < r
                           then snd (sampler image_cv l t r b 20)
                           else image_cv ! i ! j)))))"
proof (intro conjI impI)
  assume "r \<le> l \<or> b \<le> t"
  with rect show "erase_region sampler image_cv bbox img_scale pdf_size = (False, image_cv)"
    by (rule erase_region_skip)
next
  assume ok: "\<not> (r \<le> l \<or> b \<le> t)"
  have nn: "0 \<le> l" "0 \<le> t" using pixel_rect_nonneg[OF scale rect] by simp_all
  with ok have nn2: "0 \<le> r" "0 \<le> b" by linarith+
  let ?c = "snd (sampler image_cv l t r b 20)"
  let ?out = "fill_raster image_cv t b l r ?c"
  have "erase_region sampler image_cv bbox img_scale pdf_size = (True, ?out)"
    using rect ok by (rule erase_region_fill)
  moreover have "length ?out = length image_cv" by (rule fill_raster_length)
  moreover have "\<forall>i < length image_cv.
                  length (?out ! i) = length (image_cv ! i)
                  \<and> (\<forall>j < length (image_cv ! i).
                        ?out ! i ! j =
                          (if t \<le> int i \<and> int i < b \<and> l \<le> int j \<and> int j < r
                           then ?c else image_cv ! i ! j))"
    using nn nn2 by (simp add: fill_raster_row_length fill_raster_pixel)
  ultimately show "\<exists>out. erase_region sampler image_cv bbox img_scale pdf_size = (True, out)
            \<and> length out = length image_cv
            \<and> (\<forall>i < length image_cv.
                  length (out ! i) = length (image_cv ! i)
                  \<and> (\<forall>j < length (image_cv ! i).
                        out ! i ! j =
                          (if t \<le> int i \<and> int i < b \<and> l \<le> int j \<and> int j < r
                           then snd (sampler image_cv l t r b 20)
                           else image_cv ! i ! j)))"
    by blast
qed

theorem c10_erase_region_frame_witness:
  "(\<exists>out. erase_region (\<lambda>im l t r b tol. (0, 0 :: nat))
            [[1, 2, 3, 4], [5, 6, 7, 8], [9, 10, 11, 12], [13, 14, 15, 16]]
            (4, 4, 4, 4) (1 / 2) (8, 8) = (True, out)
          \<and> out ! 1 ! 1 = 0 \<and> out ! 2 ! 2 = 0 \<and> out ! 0 ! 0 = 1 \<and> out ! 3 ! 1 = 14)
   \<and> erase_region (\<lambda>im l t r b tol. (0, 0 :: nat))
        [[1, 2, 3, 4], [5, 6, 7, 8], [9, 10, 11, 12], [13, 14, 15, 16]]
        (6, 4, 1, 4) (1 / 2) (8, 8)
      = (False, [[1, 2, 3, 4], [5, 6, 7, 8], [9, 10, 11, 12], [13, 14, 15, 16]])"
proof -
  let ?img = "[[1, 2, 3, 4], [5, 6, 7, 8], [9, 10, 11, 12], [13, 14, 15, 16 :: nat]]"
  let ?s = "\<lambda>(im :: nat raster) (l :: int) (t :: int) (r :: int) (b :: int) (tol :: nat).
              (0 :: rat, 0 :: nat)"
  have sc: "(0 :: rat) \<le> 1 / 2" by simp
  have rect1: "pixel_rect (4, 4, 4, 4) (1 / 2) (8, 8) = (1, 1, 3, 3)" by code_simp
  have rect2: "pixel_rect (6, 4, 1, 4) (1 / 2) (8, 8) = (2, 1, 2, 3)" by code_simp
  from c10_erase_region_frame[OF sc rect1, of ?s ?img]
  obtain out where out: "erase_region ?s ?img (4, 4, 4, 4) (1 / 2) (8, 8) = (True, out)"
    and px: "\<forall>i < length ?img.
               length (out ! i) = length (?img ! i)
               \<and> (\<forall>j < length (?img ! i).
                     out ! i ! j =
                       (if 1 \<le> int i \<and> int i < 3 \<and> 1 \<le> int j \<and> int j < 3
                        then snd (?s ?img 1 1 3 3 20) else ?img ! i ! j))"
    by auto
  have p11: "out ! 1 ! 1 = 0" using px[rule_format, of 1] by simp
  have p22: "out ! 2 ! 2 = 0" using px[rule_format, of 2] by simp
  have p00: "out ! 0 ! 0 = 1" using px[rule_format, of 0] by simp
  have p31: "out ! 3 ! 1 = 14" using px[rule_format, of 3] by simp
  have skip: "erase_region ?s ?img (6, 4, 1, 4) (1 / 2) (8, 8) = (False, ?img)"
    using c10_erase_region_frame[OF sc rect2, of ?s ?img] by simp
  from out p11 p22 p00 p31 skip show ?thesis by blast
qed

section \<open>The background pass\<close>

lemma extract_element_files:
  "ps_files (snd (extract_foreground_element st item i img img_scale scale pdf_size page_idx))
     = ps_files st @
       (case block_bbox item of
          None \<Rightarrow> []
        | Some bbox \<Rightarrow>
            (case pixel_rect bbox img_scale pdf_size of (l, t, r, b) \<Rightarrow>
               if r \<le> l \<or> b \<le> t then []
               else [(Crop (page_idx + 1) (block_label item) i, crop_raster img t b l r)]))"
  by (simp add: extract_foreground_element_def pixel_rect_def Let_def
      split: option.splits prod.splits)

lemma extract_element_background:
  "ps_background (snd (extract_foreground_element st item i img img_scale scale pdf_size
                         page_idx)) = ps_background st"
  by (simp add: extract_foreground_element_def Let_def split: option.splits prod.splits)

lemma extract_loop_files:
  "ps_files (extract_loop st entries img img_scale scale pdf_size page_idx)
     = ps_files st @ List.map_filter (crop_of img img_scale pdf_size page_idx) entries"
proof (induction entries arbitrary: st)
  case Nil
  then show ?case by (simp add: List.map_filter_simps)
next
  case (Cons entry entries)
  obtain i item where e: "entry = (i, item)" by (cases entry) auto
  show ?case
  proof (cases "block_label item \<in> set foreground_labels")
    case False
    then have "crop_of img img_scale pdf_size page_idx (i, item) = None"
      by (simp add: crop_of_def foreground_labels_def)
    then show ?thesis using False Cons.IH[of st] by (simp add: e List.map_filter_simps)
  next
    case True
    let ?st' = "snd (extract_foreground_element st item i img img_scale scale pdf_size
                       page_idx)"
    have lab: "block_label item \<in> {''image'', ''table'', ''chart''}"
      using True by (simp add: foreground_labels_def)
    have "ps_files ?st' = ps_files st @
            (case crop_of img img_scale pdf_size page_idx (i, item) of
               None \<Rightarrow> [] | Some c \<Rightarrow> [c])"
      unfolding extract_element_files crop_of_def using lab
      by (simp split: option.splits prod.splits)
    then show ?thesis using True Cons.IH[of ?st']
      by (simp add: e List.map_filter_simps split: option.splits)
  qed
qed

lemma extract_loop_background:
  "ps_background (extract_loop st entries img img_scale scale pdf_size page_idx)
     = ps_background st"
  by (induction entries arbitrary: st) (auto simp: extract_element_background)

lemma erase_loop_fold:
  "erase_loop sampler img items img_scale pdf_size
     = erase_all sampler img_scale pdf_size img (List.map_filter erasable_bbox items)"
proof (induction items arbitrary: img)
  case Nil
  then show ?case by (simp add: erase_all_def List.map_filter_simps)
next
  case (Cons item items)
  show ?case
  proof (cases "block_label item \<in> set erasable_labels")
    case False
    then have "erasable_bbox item = None"
      by (simp add: erasable_bbox_def erasable_labels_def)
    then show ?thesis using False Cons.IH[of img] by (simp add: List.map_filter_simps)
  next
    case True
    then have eb: "erasable_bbox item = block_bbox item"
      by (auto simp: erasable_bbox_def erasable_labels_def)
    show ?thesis
    proof (cases "block_bbox item")
      case None
      then show ?thesis using True eb Cons.IH[of img] by (simp add: List.map_filter_simps)
    next
      case (Some bbox)
      then show ?thesis
        using True eb Cons.IH[of "snd (erase_region sampler img bbox img_scale pdf_size)"]
        by (simp add: List.map_filter_simps erase_all_def)
    qed
  qed
qed

text \<open>
  C8: \<open>process_slide_background\<close> on an existing page image writes, after the files already
  there: first one crop file for each image, table or chart block with a valid rectangle,
  in layout order, each holding the region of the resized input raster; then one
  processed file holding the input raster with the boxes of all erasable blocks erased one
  after the other in layout order; and that file is the slide's background.
\<close>

theorem c8_extract_before_erase:
  assumes "pdf_w \<noteq> 0" and "image_width img \<noteq> 0"
    and "img_scale = of_nat (image_width img) / of_int pdf_w"
  shows "\<exists>st'. process_slide_background sampler st items (Some img) (pdf_w, pdf_h) scale
                 page_idx = Inr st'
          \<and> ps_files st' =
              ps_files st
              @ List.map_filter (crop_of img img_scale (pdf_w, pdf_h) page_idx)
                  (enumerate 0 items)
              @ [(Processed (page_idx + 1),
                  erase_all sampler img_scale (pdf_w, pdf_h) img
                    (List.map_filter erasable_bbox items))]
          \<and> ps_background st' = Some (Processed (page_idx + 1))"
proof -
  have nz: "rat_of_nat (image_width img) / rat_of_int pdf_w \<noteq> 0"
    using assms(1,2) by simp
  show ?thesis
    using assms(1) nz
    by (simp add: process_slide_background_def Let_def assms(3) extract_loop_files
        extract_loop_background erase_loop_fold)
qed

theorem c8_extract_before_erase_witness:
  "\<exists>st'. process_slide_background (\<lambda>im l t r b tol. (0, 0 :: nat))
            \<lparr>ps_slide = [], ps_files = [], ps_background = None\<rparr>
            [\<lparr>block_label = ''image'', block_content = '''',
                block_bbox = Some (4, 4, 4, 4)\<rparr>,
             \<lparr>block_label = ''unknown'', block_content = ''x'',
                block_bbox = Some (0, 0, 8, 8)\<rparr>]
            (Some [[1, 2, 3, 4], [5, 6, 7, 8], [9, 10, 11, 12], [13, 14, 15, 16]])
            (8, 8) 1 0 = Inr st'
     \<and> ps_files st' =
         [(Crop 1 ''image'' 0, [[6, 7], [10, 11]]),
          (Processed 1, [[1, 2, 3, 4], [5, 0, 0, 8], [9, 0, 0, 12], [13, 14, 15, 16]])]
     \<and> ps_background st' = Some (Processed 1)"
proof -
  let ?img = "[[1, 2, 3, 4], [5, 6, 7, 8], [9, 10, 11, 12], [13, 14, 15, 16 :: nat]]"
  let ?s = "\<lambda>(im :: nat raster) (l :: int) (t :: int) (r :: int) (b :: int) (tol :: nat).
              (0 :: rat, 0 :: nat)"
  let ?items = "[\<lparr>block_label = ''image'', block_content = '''',
                   block_bbox = Some (4, 4, 4, 4)\<rparr>,
                 \<lparr>block_label = ''unknown'', block_content = ''x'',
                   block_bbox = Some (0, 0, 8, 8)\<rparr>]"
  let ?st = "\<lparr>ps_slide = [], ps_files = [], ps_background = None\<rparr> :: nat page_state"
  have w: "(8 :: int) \<noteq> 0" by simp
  have iw: "image_width ?img \<noteq> 0" by (simp add: image_width_def)
  have sc: "(1 / 2 :: rat) = of_nat (image_width ?img) / of_int 8"
    by (simp add: image_width_def)
  have crops: "List.map_filter (crop_of ?img (1 / 2) (8, 8) 0) (enumerate 0 ?items)
               = [(Crop 1 ''image'' 0, [[6, 7], [10, 11]])]"
    by code_simp
  have erased: "erase_all ?s (1 / 2) (8, 8) ?img (List.map_filter erasable_bbox ?items)
                = [[1, 2, 3, 4], [5, 0, 0, 8], [9, 0, 0, 12], [13, 14, 15, 16]]"
    by code_simp
  from c8_extract_before_erase[OF w iw sc, of ?s ?st ?items 8 1 0]
  obtain st' where run: "process_slide_background ?s ?st ?items (Some ?img) (8, 8) 1 0 = Inr st'"
    and fl: "ps_files st' =
               ps_files ?st
               @ List.map_filter (crop_of ?img (1 / 2) (8, 8) 0) (enumerate 0 ?items)
               @ [(Processed (0 + 1),
                   erase_all ?s (1 / 2) (8, 8) ?img (List.map_filter erasable_bbox ?items))]"
    and bg: "ps_background st' = Some (Processed (0 + 1))"
    by blast
  have fl': "ps_files st' =
         [(Crop 1 ''image'' 0, [[6, 7], [10, 11]]),
          (Processed 1, [[1, 2, 3, 4], [5, 0, 0, 8], [9, 0, 0, 12], [13, 14, 15, 16]])]"
    unfolding fl crops erased by simp
  have bg': "ps_background st' = Some (Processed 1)" using bg by simp
  from run fl' bg' show ?thesis by blast
qed

section \<open>Canvas-scale conformance\<close>

lemma resize_block_scale: "resize_block s item = scale_block s item"
  by (simp add: resize_block_def scale_block_def split: option.splits)

lemma resize_box_four:
  assumes "length box = 4"
  shows "resize_box s box = Inr (scale_box s box)"
proof -
  obtain w x y z where b: "box = [w, x, y, z]" using assms length4_cases by blast
  show ?thesis by (simp add: b resize_box_def scale_box_def split: prod.splits)
qed

lemma resize_boxes_four:
  "\<forall>b\<in>set boxes. length b = 4 \<Longrightarrow> resize_boxes s boxes = Inr (map (scale_box s) boxes)"
  by (induction boxes) (simp_all add: resize_box_four)

lemma resize_ocr_pages_four:
  "\<forall>page\<in>set ocr. \<forall>b\<in>set (rec_boxes page). length b = 4 \<Longrightarrow>
     resize_ocr_pages s ocr
       = Inr (map (\<lambda>page. page\<lparr>rec_boxes := map (scale_box s) (rec_boxes page)\<rparr>) ocr)"
  by (induction ocr) (simp_all add: resize_boxes_four)

lemma update_layout_both:
  "layoutParsingResults (update_data_size d w (Some h))
     = map (\<lambda>page. page\<lparr>width := py_int w, height := py_int h\<rparr>) (layoutParsingResults d)"
  by (simp add: update_data_size_def Let_def)

lemma resize_data_assert:
  assumes "pdf_w \<noteq> 0" and "pdf_h \<noteq> 0" and "\<not> \<bar>ppt_w / pdf_w - ppt_h / pdf_h\<bar> < 1 / 100"
  shows "resize_data d (pdf_w, pdf_h) (ppt_w, ppt_h) = Inl AssertionError"
  using assms by (simp add: resize_data_def Let_def)

lemma resize_data_ok:
  assumes "pdf_w \<noteq> 0" and "pdf_h \<noteq> 0" and "\<bar>ppt_w / pdf_w - ppt_h / pdf_h\<bar> < 1 / 100"
    and "\<forall>page\<in>set (ocrResults d). \<forall>b\<in>set (rec_boxes page). length b = 4"
  shows "resize_data d (pdf_w, pdf_h) (ppt_w, ppt_h) =
     Inr ((update_data_size d ppt_w (Some ppt_h))
            \<lparr>layoutParsingResults :=
               map (\<lambda>page. page\<lparr>parsing_res_list :=
                                    map (resize_block (ppt_w / pdf_w)) (parsing_res_list page)\<rparr>)
                 (layoutParsingResults (update_data_size d ppt_w (Some ppt_h))),
             ocrResults :=
               map (\<lambda>page. page\<lparr>rec_boxes := map (scale_box (ppt_w / pdf_w)) (rec_boxes page)\<rparr>)
                 (ocrResults d)\<rparr>)"
proof -
  have ocr: "resize_ocr_pages (ppt_w / pdf_w) (ocrResults (update_data_size d ppt_w (Some ppt_h)))
       = Inr (map (\<lambda>page. page\<lparr>rec_boxes := map (scale_box (ppt_w / pdf_w)) (rec_boxes page)\<rparr>)
                (ocrResults d))"
    using assms(4) by (simp add: update_ocr resize_ocr_pages_four)
  show ?thesis using assms(1-3) by (simp add: resize_data_def Let_def ocr)
qed

text \<open>
  C7, as stated: the page size fields become the canvas dimensions. For a page of
  \<open>1000 x 1414\<close> and the canvas \<open>720 * 1000 / 1414\<close> by \<open>720\<close> (the two scales are equal) the
  width field becomes 509: \<open>update_data_size\<close> stores \<open>int(width)\<close>, and the canvas width
  is not an integer.
\<close>

theorem c7_resize_data_counterexample:
  "(case resize_data
           \<lparr>layoutParsingResults = [\<lparr>width = 1000, height = 1414, parsing_res_list = []\<rparr>],
              ocrResults = [\<lparr>rec_boxes = []\<rparr>], dataInfo = None\<rparr>
           (1000, 1414) (360000 / 707, 720) of
      Inl e \<Rightarrow> False
    | Inr d' \<Rightarrow> map width (layoutParsingResults d') = [509])
   \<and> rat_of_int 509 \<noteq> 360000 / 707"
  by code_simp

text \<open>
  C7, amended: for non-zero page dimensions and OCR boxes of four coordinates,
  \<open>resize_data\<close> fails if and only if the two scales differ by at least \<open>1/100\<close>; when they
  differ by less, it scales every block bbox and every OCR box by the horizontal scale
  with the integer rounding of \<open>scale_bbox\<close>, and sets every page's width and height to the
  canvas dimensions truncated to integers.
\<close>

theorem c7_resize_data:
  assumes "pdf_w \<noteq> 0" and "pdf_h \<noteq> 0"
    and "\<forall>page\<in>set (ocrResults d). \<forall>b\<in>set (rec_boxes page). length b = 4"
  shows "((\<exists>e. resize_data d (pdf_w, pdf_h) (ppt_w, ppt_h) = Inl e)
            \<longleftrightarrow> \<bar>ppt_w / pdf_w - ppt_h / pdf_h\<bar> \<ge> 1 / 100)
    \<and> (\<bar>ppt_w / pdf_w - ppt_h / pdf_h\<bar> < 1 / 100 \<longrightarrow>
         (\<exists>d'. resize_data d (pdf_w, pdf_h) (ppt_w, ppt_h) = Inr d'
            \<and> map parsing_res_list (layoutParsingResults d')
                = map (\<lambda>page. map (scale_block (ppt_w / pdf_w)) (parsing_res_list page))
                    (layoutParsingResults d)
            \<and> map rec_boxes (ocrResults d')
                = map (\<lambda>page. map (scale_box (ppt_w / pdf_w)) (rec_boxes page)) (ocrResults d)
            \<and> map (\<lambda>page. (width page, height page)) (layoutParsingResults d')
                = map (\<lambda>page. (py_int ppt_w, py_int ppt_h)) (layoutParsingResults d)))"
proof (cases "\<bar>ppt_w / pdf_w - ppt_h / pdf_h\<bar> < 1 / 100")
  case False
  then have "resize_data d (pdf_w, pdf_h) (ppt_w, ppt_h) = Inl AssertionError"
    using assms(1,2) resize_data_assert by blast
  then show ?thesis using False by auto
next
  case True
  let ?d' = "(update_data_size d ppt_w (Some ppt_h))
            \<lparr>layoutParsingResults :=
               map (\<lambda>page. page\<lparr>parsing_res_list :=
                                    map (resize_block (ppt_w / pdf_w)) (parsing_res_list page)\<rparr>)
                 (layoutParsingResults (update_data_size d ppt_w (Some ppt_h))),
             ocrResults :=
               map (\<lambda>page. page\<lparr>rec_boxes := map (scale_box (ppt_w / pdf_w)) (rec_boxes page)\<rparr>)
                 (ocrResults d)\<rparr>"
  have run: "resize_data d (pdf_w, pdf_h) (ppt_w, ppt_h) = Inr ?d'"
    using assms(1,2) True assms(3) by (rule resize_data_ok)
  have blocks: "map parsing_res_list (layoutParsingResults ?d')
                = map (\<lambda>page. map (scale_block (ppt_w / pdf_w)) (parsing_res_list page))
                    (layoutParsingResults d)"
    by (simp add: update_layout_both comp_def resize_block_scale)
  have boxes: "map rec_boxes (ocrResults ?d')
                = map (\<lambda>page. map (scale_box (ppt_w / pdf_w)) (rec_boxes page)) (ocrResults d)"
    by (simp add: comp_def)
  have sizes: "map (\<lambda>page. (width page, height page)) (layoutParsingResults ?d')
                = map (\<lambda>page. (py_int ppt_w, py_int ppt_h)) (layoutParsingResults d)"
    by (simp add: update_layout_both comp_def)
  have noerr: "\<not> (\<exists>e. resize_data d (pdf_w, pdf_h) (ppt_w, ppt_h) = Inl e)"
    using run by simp
  from run blocks boxes sizes noerr True show ?thesis by auto
qed

theorem c7_resize_data_witness:
  "resize_data
     \<lparr>layoutParsingResults =
        [\<lparr>width = 2000, height = 900,
           parsing_res_list =
             [\<lparr>block_label = ''title'', block_content = ''Overview'',
                 block_bbox = Some (101, 51, 901, 151)\<rparr>]\<rparr>],
      ocrResults = [\<lparr>rec_boxes = [[101, 51, 901, 151]]\<rparr>], dataInfo = None\<rparr>
     (2000, 900) (1000, 500) = Inl AssertionError
   \<and> (\<exists>d'. resize_data
              \<lparr>layoutParsingResults =
                 [\<lparr>width = 2000, height = 900,
                    parsing_res_list =
                      [\<lparr>block_label = ''title'', block_content = ''Overview'',
                          block_bbox = Some (101, 51, 901, 151)\<rparr>]\<rparr>],
               ocrResults = [\<lparr>rec_boxes = [[101, 51, 901, 151]]\<rparr>], dataInfo = None\<rparr>
              (2000, 900) (1000, 450) = Inr d'
          \<and> map parsing_res_list (layoutParsingResults d')
              = [[\<lparr>block_label = ''title'', block_content = ''Overview'',
                    block_bbox = Some (50, 25, 451, 76)\<rparr>]]
          \<and> map rec_boxes (ocrResults d') = [[[50, 25, 451, 76]]]
          \<and> map (\<lambda>page. (width page, height page)) (layoutParsingResults d') = [(1000, 450)])"
proof -
  let ?d = "\<lparr>layoutParsingResults =
        [\<lparr>width = 2000, height = 900,
           parsing_res_list =
             [\<lparr>block_label = ''title'', block_content = ''Overview'',
                 block_bbox = Some (101, 51, 901, 151)\<rparr>]\<rparr>],
      ocrResults = [\<lparr>rec_boxes = [[101, 51, 901, 151]]\<rparr>], dataInfo = None\<rparr>"
  have w: "(2000 :: rat) \<noteq> 0" and h: "(900 :: rat) \<noteq> 0" by simp_all
  have wf: "\<forall>page\<in>set (ocrResults ?d). \<forall>b\<in>set (rec_boxes page). length b = 4" by simp
  have far: "\<bar>(1000 :: rat) / 2000 - 500 / 900\<bar> \<ge> 1 / 100" by simp
  have near: "\<bar>(1000 :: rat) / 2000 - 450 / 900\<bar> < 1 / 100" by simp
  from c7_resize_data[OF w h wf, of 1000 500] far
  obtain e where "resize_data ?d (2000, 900) (1000, 500) = Inl e" by blast
  moreover have "resize_data ?d (2000, 900) (1000, 500) \<noteq> Inl ZeroDivisionError"
    and "resize_data ?d (2000, 900) (1000, 500) \<noteq> Inl ValueError"
    by code_simp+
  ultimately have fails: "resize_data ?d (2000, 900) (1000, 500) = Inl AssertionError"
    by (cases e) auto
  have sb: "scale_block (1 / 2)
              \<lparr>block_label = ''title'', block_content = ''Overview'',
                 block_bbox = Some (101, 51, 901, 151)\<rparr>
            = \<lparr>block_label = ''title'', block_content = ''Overview'',
                 block_bbox = Some (50, 25, 451, 76)\<rparr>"
    by code_simp
  have sx: "scale_box (1 / 2) [101, 51, 901, 151] = [50, 25, 451, 76]" by code_simp
  have pi: "py_int 1000 = 1000" "py_int 450 = 450" by code_simp+
  from c7_resize_data[OF w h wf, of 1000 450] near
  obtain d' where run: "resize_data ?d (2000, 900) (1000, 450) = Inr d'"
    and b: "map parsing_res_list (layoutParsingResults d')
              = map (\<lambda>page. map (scale_block (1000 / 2000)) (parsing_res_list page))
                  (layoutParsingResults ?d)"
    and x: "map rec_boxes (ocrResults d')
              = map (\<lambda>page. map (scale_box (1000 / 2000)) (rec_boxes page)) (ocrResults ?d)"
    and s: "map (\<lambda>page. (width page, height page)) (layoutParsingResults d')
              = map (\<lambda>page. (py_int 1000, py_int 450)) (layoutParsingResults ?d)"
    by blast
  have b': "map parsing_res_list (layoutParsingResults d')
              = [[\<lparr>block_label = ''title'', block_content = ''Overview'',
                    block_bbox = Some (50, 25, 451, 76)\<rparr>]]"
    unfolding b by (simp add: sb)
  have x': "map rec_boxes (ocrResults d') = [[[50, 25, 451, 76]]]"
    unfolding x by (simp add: sx)
  have s': "map (\<lambda>page. (width page, height page)) (layoutParsingResults d') = [(1000, 450)]"
    unfolding s by (simp add: pi)
  show ?thesis by (intro conjI exI[of _ d'] fails run b' x' s')
qed

section \<open>A page, end to end\<close>

lemma image_width_rows:
  assumes "length img = n" and "0 < n" and "\<forall>row\<in>set img. length row = m"
  shows "image_width img = m"
  using assms by (cases img) (auto simp: image_width_def)

lemma title_line_count:
  assumes "\<forall>b\<in>set ocr. length b = 4" and "\<forall>b\<in>set ocr. \<not> centroid_inside bb b"
  shows "get_line_count bb ocr = Inr 0"
proof -
  have "filter (centroid_inside bb) ocr = []" using assms(2) by (simp add: filter_empty_conv)
  then have "lineCount bb ocr = 0" by (simp add: lineCount_def)
  then show ?thesis using get_line_count_refines[OF assms(1), of bb] by simp
qed

text \<open>
  C9, as stated: the title yields a left-aligned text shape. The slide of the scenario has
  one text shape, of font size 75, and its alignment is \<open>Center\<close>: only a
  \<open>paragraph_title\<close> is aligned left.
\<close>

theorem c9_scenario_counterexample:
  "map (\<lambda>s. case s of TextShape t \<Rightarrow> (ts_alignment t, ts_font_height t)
                     | ImageShape a r \<Rightarrow> (Left, 0))
     (case process_text_blocks []
             [\<lparr>block_label = ''title'', block_content = ''Overview'',
                 block_bbox = Some (100, 50, 900, 150)\<rparr>,
              \<lparr>block_label = ''footer'', block_content = ''Made with NotebookLM'',
                 block_bbox = Some (100, 950, 900, 990)\<rparr>]
             [] 1 1000 1000 ''Calibri'' of
        Inl e \<Rightarrow> [] | Inr slide \<Rightarrow> slide)
   = [(Center, 75)]
   \<and> Center \<noteq> Left"
  by code_simp

text \<open>
  C9, amended: a page of \<open>1000 x 1000\<close> on a canvas of the same size, with a title block at
  \<open>(100, 50, 900, 150)\<close>, no OCR line centred inside it, and a footer block whose content
  contains the watermark marker. The page loop yields one shape: the title's text shape,
  centred, of font size 75; the footer yields none; and in the background image every
  pixel of the region extended by the margin 2, rows 48 to 151 and columns 98 to 901, has
  the fill colour sampled for the title's rectangle.
\<close>

theorem c9_scenario:
  assumes wf: "\<forall>b\<in>set ocr. length b = 4"
    and none: "\<forall>b\<in>set ocr. \<not> centroid_inside (100, 50, 900, 150) b"
    and rows: "length img = 1000"
    and cols: "\<forall>row\<in>set img. length row = 1000"
  shows "\<exists>st' bg.
           process_page sampler
             [\<lparr>block_label = ''title'', block_content = ''Overview'',
                 block_bbox = Some (100, 50, 900, 150)\<rparr>,
              \<lparr>block_label = ''footer'', block_content = ''Made with NotebookLM'',
                 block_bbox = Some (100, 950, 900, 990)\<rparr>]
             ocr (Some img) (1000, 1000) 1000 1000 0 = Inr st'
           \<and> ps_slide st' =
               [TextShape \<lparr>ts_name = ''Block_title'', ts_text = ''Overview'',
                            ts_rect = (100, 47, 930, 157), ts_alignment = Center,
                            ts_font_name = ''Calibri'', ts_font_height = 75\<rparr>]
           \<and> ps_background st' = Some (Processed 1)
           \<and> last (ps_files st') = (Processed 1, bg)
           \<and> (\<forall>i j. 48 \<le> i \<and> i < 152 \<and> 98 \<le> j \<and> j < 902 \<longrightarrow>
                  bg ! i ! j = snd (sampler img 98 48 902 152 20))"
proof -
  let ?title = "\<lparr>block_label = ''title'', block_content = ''Overview'',
                 block_bbox = Some (100, 50, 900, 150)\<rparr>"
  let ?footer = "\<lparr>block_label = ''footer'', block_content = ''Made with NotebookLM'',
                 block_bbox = Some (100, 950, 900, 990)\<rparr>"
  let ?shape = "TextShape \<lparr>ts_name = ''Block_title'', ts_text = ''Overview'',
                            ts_rect = (100, 47, 930, 157), ts_alignment = Center,
                            ts_font_name = ''Calibri'', ts_font_height = 75\<rparr>"
  have s1: "\<not> should_skip_text_block ''title'' ''Overview''" by code_simp
  have s2: "should_skip_text_block ''footer'' ''Made with NotebookLM''" by code_simp
  have lc: "get_line_count (100, 50, 900, 150) ocr = Inr 0"
    using wf none by (rule title_line_count)
  have fs: "calculate_font_size ((150 - 50) * 1) 8 False 0 = 75" by code_simp
  have shape: "create_text_shape [] ''Overview'' ''title'' (100, 50, 900, 150) 1 1000 1000 75
                 ''Calibri'' 2 = [?shape]"
    by (simp add: create_text_shape_def)
  have tpass: "process_text_blocks [] [?title, ?footer] ocr 1 1000 1000 ''Calibri''
                = Inr [?shape]"
    using s1 s2 lc fs shape by simp
  have iw: "image_width img = 1000" using rows cols image_width_rows[of img 1000 1000] by simp
  have r1: "pixel_rect (100, 50, 900, 150) 1 (1000, 1000) = (98, 48, 902, 152)" by code_simp
  have r2: "pixel_rect (100, 950, 900, 990) 1 (1000, 1000) = (98, 948, 902, 992)" by code_simp
  let ?c1 = "snd (sampler img 98 48 902 152 20)"
  let ?img1 = "fill_raster img 48 152 98 902 ?c1"
  let ?c2 = "snd (sampler ?img1 98 948 902 992 20)"
  let ?img2 = "fill_raster ?img1 948 992 98 902 ?c2"
  have e1: "erase_region sampler img (100, 50, 900, 150) 1 (1000, 1000) = (True, ?img1)"
    using erase_region_fill[OF r1, of sampler img] by simp
  have e2: "erase_region sampler ?img1 (100, 950, 900, 990) 1 (1000, 1000) = (True, ?img2)"
    using erase_region_fill[OF r2, of sampler ?img1] by simp
  have erase: "erase_loop sampler img [?title, ?footer] 1 (1000, 1000) = ?img2"
    by (simp add: erasable_labels_def e1 e2)
  have exloop: "extract_loop st [(0, ?title), (Suc 0, ?footer)] img 1 1 (1000, 1000) 0 = st"
    for st :: "'a page_state"
    by (simp add: foreground_labels_def)
  let ?st' = "\<lparr>ps_slide = [?shape], ps_files = [(Processed 1, ?img2)],
               ps_background = Some (Processed 1)\<rparr>"
  have bgpass: "process_slide_background sampler
                  \<lparr>ps_slide = [?shape], ps_files = [], ps_background = None\<rparr>
                  [?title, ?footer] (Some img) (1000, 1000) 1 0 = Inr ?st'"
    by (simp add: process_slide_background_def iw Let_def erase exloop del: extract_loop.simps erase_loop.simps)
  have run: "process_page sampler [?title, ?footer] ocr (Some img) (1000, 1000) 1000 1000 0
               = Inr ?st'"
    unfolding process_page_def tpass using bgpass by simp
  have px: "?img2 ! i ! j = ?c1" if "48 \<le> i \<and> i < 152 \<and> 98 \<le> j \<and> j < 902" for i j
  proof -
    have i: "i < length img" using that rows by simp
    have "img ! i \<in> set img" using i by simp
    then have j: "j < length (img ! i)" using that cols by simp
    have l1: "length ?img1 = length img" by (rule fill_raster_length)
    have rl1: "length (?img1 ! i) = length (img ! i)"
      using i by (simp add: fill_raster_row_length)
    have "?img2 ! i ! j = ?img1 ! i ! j"
      using that i j l1 rl1 fill_raster_pixel[of 948 992 98 902 i ?img1 j ?c2] by simp
    also have "\<dots> = ?c1"
      using that i j fill_raster_pixel[of 48 152 98 902 i img j ?c1] by simp
    finally show ?thesis .
  qed
  have "ps_slide ?st' = [?shape]" and "ps_background ?st' = Some (Processed 1)"
    and "last (ps_files ?st') = (Processed 1, ?img2)" by simp_all
  with run px show ?thesis by blast
qed

theorem c9_scenario_witness:
  "\<exists>st' bg.
     process_page (\<lambda>im l t r b tol. (0, 7 :: nat))
       [\<lparr>block_label = ''title'', block_content = ''Overview'',
           block_bbox = Some (100, 50, 900, 150)\<rparr>,
        \<lparr>block_label = ''footer'', block_content = ''Made with NotebookLM'',
           block_bbox = Some (100, 950, 900, 990)\<rparr>]
       [[100, 955, 300, 985]] (Some (replicate 1000 (replicate 1000 0)))
       (1000, 1000) 1000 1000 0 = Inr st'
     \<and> ps_slide st' =
         [TextShape \<lparr>ts_name = ''Block_title'', ts_text = ''Overview'',
                      ts_rect = (100, 47, 930, 157), ts_alignment = Center,
                      ts_font_name = ''Calibri'', ts_font_height = 75\<rparr>]
     \<and> ps_background st' = Some (Processed 1)
     \<and> last (ps_files st') = (Processed 1, bg)
     \<and> bg ! 100 ! 500 = 7"
proof -
  let ?ocr = "[[100, 955, 300, 985]] :: rat list list"
  let ?img = "replicate 1000 (replicate 1000 (0 :: nat))"
  let ?s = "\<lambda>(im :: nat raster) (l :: int) (t :: int) (r :: int) (b :: int) (tol :: nat).
              (0 :: rat, 7 :: nat)"
  have wf: "\<forall>b\<in>set ?ocr. length b = 4" by simp
  have none: "\<forall>b\<in>set ?ocr. \<not> centroid_inside (100, 50, 900, 150) b"
    by (simp add: centroid_inside_def)
  have rows: "length ?img = 1000" by simp
  have cols: "\<forall>row\<in>set ?img. length row = 1000" by simp
  from c9_scenario[OF wf none rows cols, of ?s]
  obtain st' bg where run: "process_page ?s
       [\<lparr>block_label = ''title'', block_content = ''Overview'',
           block_bbox = Some (100, 50, 900, 150)\<rparr>,
        \<lparr>block_label = ''footer'', block_content = ''Made with NotebookLM'',
           block_bbox = Some (100, 950, 900, 990)\<rparr>]
       ?ocr (Some ?img) (1000, 1000) 1000 1000 0 = Inr st'"
    and sl: "ps_slide st' =
         [TextShape \<lparr>ts_name = ''Block_title'', ts_text = ''Overview'',
                      ts_rect = (100, 47, 930, 157), ts_alignment = Center,
                      ts_font_name = ''Calibri'', ts_font_height = 75\<rparr>]"
    and bg: "ps_background st' = Some (Processed 1)"
    and fl: "last (ps_files st') = (Processed 1, bg)"
    and px: "\<forall>i j. 48 \<le> i \<and> i < 152 \<and> 98 \<le> j \<and> j < 902 \<longrightarrow>
                  bg ! i ! j = snd (?s ?img 98 48 902 152 20)"
    by blast
  have p: "bg ! 100 ! 500 = 7" using px[rule_format, of 100 500] by simp
  show ?thesis by (intro exI[of _ st'] exI[of _ bg] conjI run sl bg fl p)
qed

end
